theory Spec2Isabelle
  imports Complex_Main "HOL-Library.Word"
begin

unbundle bit_operations_syntax

section \<open>Strings of the host language\<close>

text \<open>
  Strings are byte strings. The source's messages are ASCII except for the em dash, which
  is written here as its three UTF-8 bytes. Every pattern the source searches for is ASCII,
  and the case-insensitive matching of the source never identifies a non-ASCII character
  with an ASCII one, so matching on bytes agrees with the source.
\<close>

definition em_dash :: string where
  "em_dash = [CHR 0xE2, CHR 0x80, CHR 0x94]"

fun starts_with :: "string \<Rightarrow> string \<Rightarrow> bool" where
  "starts_with s [] = True"
| "starts_with [] (p # ps) = False"
| "starts_with (c # cs) (p # ps) = (c = p \<and> starts_with cs ps)"

text \<open>\<open>str_includes s sub\<close> is \<^verbatim>\<open>s.includes(sub)\<close>.\<close>

fun str_includes :: "string \<Rightarrow> string \<Rightarrow> bool" where
  "str_includes [] sub = (sub = [])"
| "str_includes (c # cs) sub = (starts_with (c # cs) sub \<or> str_includes cs sub)"

definition to_lower :: "char \<Rightarrow> char" where
  "to_lower c =
     (let n = (of_char c :: nat) in if 65 \<le> n \<and> n \<le> 90 then char_of (n + 32) else c)"

text \<open>
  The regular expressions of the source are alternations of literal texts, one of them with
  a \<^verbatim>\<open>\s*\<close> in the middle, all tested with the flag \<^verbatim>\<open>i\<close>. A pattern is a list
  of pieces.

  The characters that \<^verbatim>\<open>\s\<close> matches are the white space and line terminators of
  the language: tab, line feed, vertical tab, form feed, carriage return, space, U+00A0,
  U+1680, U+2000 to U+200A, U+2028, U+2029, U+202F, U+205F, U+3000 and U+FEFF. Each is
  given by its bytes in UTF-8.
\<close>

datatype piece = Lit string | WsStar

definition white_space :: "string list" where
  "white_space =
     map (map char_of)
       [[9 :: nat], [10], [11], [12], [13], [32], [0xC2, 0xA0], [0xE1, 0x9A, 0x80],
        [0xE2, 0x80, 0x80], [0xE2, 0x80, 0x81], [0xE2, 0x80, 0x82], [0xE2, 0x80, 0x83],
        [0xE2, 0x80, 0x84], [0xE2, 0x80, 0x85], [0xE2, 0x80, 0x86], [0xE2, 0x80, 0x87],
        [0xE2, 0x80, 0x88], [0xE2, 0x80, 0x89], [0xE2, 0x80, 0x8A], [0xE2, 0x80, 0xA8],
        [0xE2, 0x80, 0xA9], [0xE2, 0x80, 0xAF], [0xE2, 0x81, 0x9F], [0xE3, 0x80, 0x80],
        [0xEF, 0xBB, 0xBF]]"

text \<open>\<open>skip_space s\<close> is \<open>s\<close> without the white space character it starts with, if any.\<close>

fun skip_space_of :: "string list \<Rightarrow> string \<Rightarrow> string option" where
  "skip_space_of [] s = None"
| "skip_space_of (w # ws) s =
     (if w \<noteq> [] \<and> starts_with s w then Some (drop (length w) s) else skip_space_of ws s)"

definition skip_space :: "string \<Rightarrow> string option" where
  "skip_space s = skip_space_of white_space s"

function match_here :: "piece list \<Rightarrow> string \<Rightarrow> bool" where
  "match_here [] s = True"
| "match_here (Lit l # ps) s =
     (starts_with (map to_lower s) (map to_lower l) \<and> match_here ps (drop (length l) s))"
| "match_here (WsStar # ps) s =
     (match_here ps s \<or>
      (case skip_space s of None \<Rightarrow> False | Some rest \<Rightarrow> match_here (WsStar # ps) rest))"
  by pat_completeness auto
termination
proof -
  have len: "length w \<le> length s" if "starts_with s w" for s w
    using that by (induction s w rule: starts_with.induct) simp_all
  have of_shorter: "length r < length s" if "skip_space_of ws s = Some r" for ws s r
    using that
  proof (induction ws)
    case Nil
    then show ?case by simp
  next
    case (Cons w ws)
    show ?case
    proof (cases "w \<noteq> [] \<and> starts_with s w")
      case True
      then have "0 < length w" "length w \<le> length s"
        by (simp_all add: len)
      moreover from True Cons.prems have "r = drop (length w) s" by simp
      ultimately show ?thesis by (cases w) auto
    next
      case False
      with Cons show ?thesis by auto
    qed
  qed
  have shorter: "length r < length s" if "skip_space s = Some r" for s r
    using that by (simp add: skip_space_def of_shorter)
  show ?thesis
    by (relation "measures [\<lambda>(ps, s). length s, \<lambda>(ps, s). length ps]")
      (auto simp: shorter)
qed

declare match_here.simps [simp del]

fun match_anywhere :: "piece list \<Rightarrow> string \<Rightarrow> bool" where
  "match_anywhere p [] = match_here p []"
| "match_anywhere p (c # cs) = (match_here p (c # cs) \<or> match_anywhere p cs)"

text \<open>\<open>regex_test alts s\<close> is \<^verbatim>\<open>/alt1|alt2|.../i.test(s)\<close>.\<close>

definition regex_test :: "piece list list \<Rightarrow> string \<Rightarrow> bool" where
  "regex_test alts s = list_ex (\<lambda>p. match_anywhere p s) alts"

text \<open>Decimal text of a number that is a natural number, as a template literal prints it.\<close>

definition digit :: "nat \<Rightarrow> char" where
  "digit d = char_of (48 + d)"

function show_nat :: "nat \<Rightarrow> string" where
  "show_nat n = (if n < 10 then [digit n] else show_nat (n div 10) @ [digit (n mod 10)])"
  by pat_completeness auto
termination
  by (relation "measure id") auto

declare show_nat.simps [simp del]

text \<open>
  A thrown or emitted error value: \<open>err_message\<close> is what \<^verbatim>\<open>error?.message\<close> reads
  (\<open>None\<close> when it is undefined), \<open>err_text\<close> is \<^verbatim>\<open>String(error)\<close>.
\<close>

datatype js_error = JsError (err_message: "string option") (err_text: string)

text \<open>\<open>or_else m d\<close> is \<^verbatim>\<open>m || d\<close> for an optional string \<open>m\<close>: the empty string is falsy.\<close>

definition or_else :: "string option \<Rightarrow> string \<Rightarrow> string" where
  "or_else m d = (case m of None \<Rightarrow> d | Some s \<Rightarrow> if s = [] then d else s)"

section \<open>PCM encoding (\<^verbatim>\<open>float32ToLinear16\<close>)\<close>

text \<open>
  A sample is a number of the host language: a finite value, an infinity or NaN. The
  samples come from a \<^verbatim>\<open>Float32Array\<close>, so a finite sample has a 24-bit significand;
  its product with 32767 or 32768 has at most 39 significant bits and is exact in double
  precision. The arithmetic of the source on finite samples is therefore the arithmetic of
  the rationals, and finite values are modelled as \<open>rat\<close>.
\<close>

datatype number = Num rat | PosInfinity | NegInfinity | NaN

fun math_min :: "rat \<Rightarrow> number \<Rightarrow> number" where
  "math_min a (Num x) = Num (min a x)"
| "math_min a PosInfinity = Num a"
| "math_min a NegInfinity = NegInfinity"
| "math_min a NaN = NaN"

fun math_max :: "rat \<Rightarrow> number \<Rightarrow> number" where
  "math_max a (Num x) = Num (max a x)"
| "math_max a PosInfinity = PosInfinity"
| "math_max a NegInfinity = Num a"
| "math_max a NaN = NaN"

text \<open>\<^verbatim>\<open>sample < 0\<close>: false on NaN.\<close>

fun less_zero :: "number \<Rightarrow> bool" where
  "less_zero (Num x) = (x < 0)"
| "less_zero PosInfinity = False"
| "less_zero NegInfinity = True"
| "less_zero NaN = False"

fun times :: "number \<Rightarrow> rat \<Rightarrow> number" where
  "times (Num x) k = Num (x * k)"
| "times PosInfinity k = (if 0 < k then PosInfinity else if k < 0 then NegInfinity else NaN)"
| "times NegInfinity k = (if 0 < k then NegInfinity else if k < 0 then PosInfinity else NaN)"
| "times NaN k = NaN"

text \<open>Truncation towards zero.\<close>

definition trunc :: "rat \<Rightarrow> int" where
  "trunc x = (if x < 0 then - \<lfloor>- x\<rfloor> else \<lfloor>x\<rfloor>)"

text \<open>
  Storing a number into an \<^verbatim>\<open>Int16Array\<close>: NaN and the infinities become 0, a finite
  value is truncated and reduced modulo \<open>2 ^ 16\<close>.
\<close>

fun to_int16 :: "number \<Rightarrow> 16 word" where
  "to_int16 (Num x) = word_of_int (trunc x)"
| "to_int16 PosInfinity = 0"
| "to_int16 NegInfinity = 0"
| "to_int16 NaN = 0"

text \<open>The right-hand side of the assignment in the loop body.\<close>

definition convert_sample :: "number \<Rightarrow> number" where
  "convert_sample x =
     (let sample = math_max (- 1) (math_min 1 x)
      in if less_zero sample then times sample 32768 else times sample 32767)"

text \<open>The loop over the samples, filling the \<^verbatim>\<open>Int16Array\<close>.\<close>

primrec fill_int16 :: "number list \<Rightarrow> 16 word list" where
  "fill_int16 [] = []"
| "fill_int16 (x # xs) = to_int16 (convert_sample x) # fill_int16 xs"

text \<open>
  The bytes of one element in the array's buffer. The buffer has the byte order of the
  platform; the platforms the program runs on are little-endian.
\<close>

definition int16_bytes :: "16 word \<Rightarrow> 8 word list" where
  "int16_bytes w = [ucast w, ucast (drop_bit 8 w)]"

definition float32ToLinear16 :: "number list \<Rightarrow> 8 word list" where
  "float32ToLinear16 float32Array = concat (map int16_bytes (fill_int16 float32Array))"

text \<open>
  The encoding as the specification words it, on a finite sample: clamp, scale by 32767
  if non-negative and by 32768 if negative, truncate. And the reading of a byte sequence as
  little-endian signed 16-bit values.
\<close>

definition encode_sample_spec :: "rat \<Rightarrow> int" where
  "encode_sample_spec f =
     (let c = max (- 1) (min 1 f);
          scaled = (if 0 \<le> c then c * 32767 else c * 32768)
      in trunc scaled)"

fun decode_le16 :: "8 word list \<Rightarrow> int list" where
  "decode_le16 (lo # hi # bs) =
     sint ((ucast lo :: 16 word) OR push_bit 8 (ucast hi)) # decode_le16 bs"
| "decode_le16 [b] = []"
| "decode_le16 [] = []"

section \<open>The transcription service\<close>

record TranscriptionResult =
  result_transcript :: string
  result_isFinal :: bool
  result_confidence :: rat

text \<open>
  \<open>'st\<close> is the state the registered callbacks act on. A callback slot holds a function
  or is \<open>None\<close> (null). \<open>connection\<close> is \<open>None\<close> when the field is null.
\<close>

record 'st TranscriptionService =
  apiKey :: string
  connection :: "unit option"
  isConnected :: bool
  onTranscriptCallback :: "(TranscriptionResult \<Rightarrow> 'st \<Rightarrow> 'st) option"
  onErrorCallback :: "(string \<Rightarrow> 'st \<Rightarrow> 'st) option"

text \<open>The constructor: throws on an empty key.\<close>

definition new_TranscriptionService :: "string \<Rightarrow> string + 'st TranscriptionService" where
  "new_TranscriptionService key =
     (if key = [] then Inl ''Deepgram API key is required''
      else Inr \<lparr>apiKey = key, connection = None, isConnected = False,
                onTranscriptCallback = None, onErrorCallback = None\<rparr>)"

definition onTranscript ::
  "(TranscriptionResult \<Rightarrow> 'st \<Rightarrow> 'st) \<Rightarrow> 'st TranscriptionService \<Rightarrow> 'st TranscriptionService" where
  "onTranscript callback s = s\<lparr>onTranscriptCallback := Some callback\<rparr>"

definition onError ::
  "(string \<Rightarrow> 'st \<Rightarrow> 'st) \<Rightarrow> 'st TranscriptionService \<Rightarrow> 'st TranscriptionService" where
  "onError callback s = s\<lparr>onErrorCallback := Some callback\<rparr>"

text \<open>
  The events a live connection emits. The payload of a transcript event carries what the
  handler reads from it: \<^verbatim>\<open>data.channel?.alternatives?.[0]?.transcript\<close> (\<open>None\<close> when
  undefined), the truth value of \<^verbatim>\<open>data.is_final\<close>, and the confidence. A close event
  carries \<^verbatim>\<open>event?.code\<close> and \<^verbatim>\<open>event?.reason\<close>.

  \<open>Earlier ev\<close> is the event \<open>ev\<close> emitted by a connection that an earlier attempt or an
  earlier call of \<^verbatim>\<open>connect\<close> created. \<^verbatim>\<open>connect\<close> never removes a listener and
  never finishes a connection it gives up, so such a connection still reaches the service.
\<close>

datatype transcript_data =
  TranscriptData (data_transcript: "string option") (data_is_final: bool)
    (data_confidence: "rat option")

datatype event =
  Open
| Transcript transcript_data
| Metadata
| Error js_error
| Close "nat option" "string option"
| Earlier event

text \<open>What the program does to the outside: calls on the SDK and timers that ran out.\<close>

datatype io = LiveCalled | Sent "8 word list" | Finished | Waited nat

definition dispatch_error ::
  "string \<Rightarrow> 'st TranscriptionService \<times> 'st \<Rightarrow> 'st TranscriptionService \<times> 'st" where
  "dispatch_error msg \<sigma> =
     (case onErrorCallback (fst \<sigma>) of
        None \<Rightarrow> \<sigma>
      | Some cb \<Rightarrow> (fst \<sigma>, cb msg (snd \<sigma>)))"

text \<open>The handler of transcript events.\<close>

definition handle_transcript ::
  "transcript_data \<Rightarrow> 'st TranscriptionService \<times> 'st \<Rightarrow> 'st TranscriptionService \<times> 'st" where
  "handle_transcript d \<sigma> =
     (case (data_transcript d, onTranscriptCallback (fst \<sigma>)) of
        (Some t, Some cb) \<Rightarrow>
          if t = [] then \<sigma>
          else (fst \<sigma>,
                cb \<lparr>result_transcript = t, result_isFinal = data_is_final d,
                    result_confidence = (case data_confidence d of None \<Rightarrow> 0 | Some c \<Rightarrow> c)\<rparr>
                  (snd \<sigma>))
      | _ \<Rightarrow> \<sigma>)"

text \<open>The handler of error events: the message mapping, then the error callback.\<close>

definition friendly_message :: "js_error \<Rightarrow> string" where
  "friendly_message e =
     (let userMessage = or_else (err_message e) ''Transcription error'' in
      if regex_test [[Lit ''Status:'', WsStar, Lit ''401''], [Lit ''401 Unauthorized''],
                     [Lit ''No key or access token provided''], [Lit ''access token'']] userMessage
      then ''Authentication failed '' @ em_dash @ '' check your Deepgram API key''
      else if regex_test [[Lit ''Status:'', WsStar, Lit ''403''], [Lit ''403 Forbidden'']] userMessage
      then ''Permission denied '' @ em_dash @ '' check your Deepgram account and plan''
      else if regex_test [[Lit ''Connection timeout''], [Lit ''timeout''],
                          [Lit ''Ready State: CLOSING''], [Lit ''Ready State: CLOSED'']] userMessage
      then ''Network error '' @ em_dash @ '' WebSocket connection failed (check network/firewall)''
      else userMessage)"

definition handle_error ::
  "js_error \<Rightarrow> 'st TranscriptionService \<times> 'st \<Rightarrow> 'st TranscriptionService \<times> 'st" where
  "handle_error e \<sigma> = dispatch_error (friendly_message e) \<sigma>"

text \<open>The handler of close events.\<close>

text \<open>The text \<^verbatim>\<open>${reason ? `: ${reason}` : ''}\<close> of the templates.\<close>

definition reason_suffix :: "string option \<Rightarrow> string" where
  "reason_suffix reason =
     (case reason of None \<Rightarrow> [] | Some r \<Rightarrow> if r = [] then [] else '': '' @ r)"

definition close_message :: "nat \<Rightarrow> string option \<Rightarrow> string" where
  "close_message code reason =
     (if code = 1006
      then ''Connection closed abnormally (1006) '' @ em_dash @
           '' possible network/firewall/TLS/proxy issue blocking WebSocket connections''
      else ''Connection closed (code '' @ show_nat code @ '')'' @ reason_suffix reason)"

definition handle_close ::
  "nat option \<Rightarrow> string option \<Rightarrow> 'st TranscriptionService \<times> 'st
     \<Rightarrow> 'st TranscriptionService \<times> 'st" where
  "handle_close code reason \<sigma> =
     (let \<sigma>1 = ((fst \<sigma>)\<lparr>isConnected := False\<rparr>, snd \<sigma>) in
      case code of
        None \<Rightarrow> \<sigma>1
      | Some c \<Rightarrow>
          if c \<noteq> 0 \<and> c \<noteq> 1000 then dispatch_error (close_message c reason) \<sigma>1 else \<sigma>1)"

text \<open>
  Every listener that \<^verbatim>\<open>connect\<close> puts on a connection: those of
  \<^verbatim>\<open>setupEventListeners\<close> and the two of the promise. The listener of the promise for
  an open event sets \<open>isConnected\<close>; resolving and rejecting are in \<open>await_open\<close>. The
  listeners of an earlier connection are the same functions on the same service; that
  their promise is settled changes nothing in what they do to the service.
\<close>

fun connection_event ::
  "event \<Rightarrow> 'st TranscriptionService \<times> 'st \<Rightarrow> 'st TranscriptionService \<times> 'st" where
  "connection_event Open \<sigma> = ((fst \<sigma>)\<lparr>isConnected := True\<rparr>, snd \<sigma>)"
| "connection_event (Transcript d) \<sigma> = handle_transcript d \<sigma>"
| "connection_event Metadata \<sigma> = \<sigma>"
| "connection_event (Error e) \<sigma> = handle_error e \<sigma>"
| "connection_event (Close code reason) \<sigma> = handle_close code reason \<sigma>"
| "connection_event (Earlier ev) \<sigma> = connection_event ev \<sigma>"

definition run_events ::
  "event list \<Rightarrow> 'st TranscriptionService \<times> 'st \<Rightarrow> 'st TranscriptionService \<times> 'st" where
  "run_events evs \<sigma> = foldl (\<lambda>\<sigma>' e. connection_event e \<sigma>') \<sigma> evs"

text \<open>
  What the endpoint does in one attempt: the call that creates the live connection throws,
  or the connection is created. The list holds the events that reach the service from then
  on, in order, until \<^verbatim>\<open>connect\<close> creates the next connection, returns or throws. When
  the connection is created these are the events of the new connection and, between them,
  the events of earlier connections, marked \<open>Earlier\<close>. When the call throws there is no
  new connection, and every event of the list is one of an earlier connection.
\<close>

datatype attempt = LiveThrows js_error "event list" | Events "event list"

text \<open>The attempt the loop is at; when the list has no entry the endpoint stays silent.\<close>

definition next_attempt :: "attempt list \<Rightarrow> attempt" where
  "next_attempt scripts = (case scripts of [] \<Rightarrow> Events [] | a # _ \<Rightarrow> a)"

text \<open>
  Waiting for the connection to open. Every event is handled by the listeners. The first
  open event of the new connection resolves the promise, its first error event rejects
  it with the payload; an event of an earlier connection settles nothing. When the list
  ends before the promise is settled, nothing more arrives in the 10 seconds of the timer
  and the timer rejects. The result holds the events that are still to come.
\<close>

definition timeout_error :: js_error where
  "timeout_error = JsError (Some ''Connection timeout'') ''Error: Connection timeout''"

fun await_open ::
  "event list \<Rightarrow> 'st TranscriptionService \<times> 'st
     \<Rightarrow> (js_error + unit) \<times> ('st TranscriptionService \<times> 'st) \<times> event list" where
  "await_open [] \<sigma> = (Inl timeout_error, \<sigma>, [])"
| "await_open (Open # es) \<sigma> = (Inr (), connection_event Open \<sigma>, es)"
| "await_open (Error e # es) \<sigma> = (Inl e, connection_event (Error e) \<sigma>, es)"
| "await_open (ev # es) \<sigma> = await_open es (connection_event ev \<sigma>)"

text \<open>The test of the catch block: a message with 1006 or Network error in it.\<close>

definition is_transient :: "js_error \<Rightarrow> bool" where
  "is_transient e =
     (case err_message e of
        None \<Rightarrow> False
      | Some m \<Rightarrow> str_includes m ''1006'' \<or> str_includes m ''Network error'')"

text \<open>
  One turn of the loop, up to the point where the next turn starts or the loop is left:
  the \<^verbatim>\<open>try\<close> block and, in the catch block, what arrives while it waits. When the
  promise resolves, \<^verbatim>\<open>connect\<close> returns at once. When the error caught is not
  transient, the loop is left at once and \<^verbatim>\<open>connect\<close> throws without waiting. In
  both cases the events that are still to come arrive after the call and are no part of
  it. When the error caught is transient, the catch block waits 500 ms: the events that are
  still to come arrive during the wait, and the listeners of the connections, which are
  given up but not finished, handle them.
\<close>

definition run_attempt ::
  "attempt \<Rightarrow> 'st TranscriptionService \<times> 'st
     \<Rightarrow> (js_error + unit) \<times> ('st TranscriptionService \<times> 'st) \<times> io list" where
  "run_attempt a \<sigma> =
     (case a of
        LiveThrows e late \<Rightarrow>
          (Inl e, if is_transient e then run_events late \<sigma> else \<sigma>, [LiveCalled])
      | Events evs \<Rightarrow>
          (case await_open evs ((fst \<sigma>)\<lparr>connection := Some ()\<rparr>, snd \<sigma>) of
             (Inr u, \<sigma>', late) \<Rightarrow> (Inr u, \<sigma>', [LiveCalled])
           | (Inl e, \<sigma>', late) \<Rightarrow>
               (Inl e, if is_transient e then run_events late \<sigma>' else \<sigma>', [LiveCalled])))"

definition maxAttempts :: nat where
  "maxAttempts = 2"

text \<open>The code after the loop: notify the error callback, then throw.\<close>

definition last_message :: "js_error option \<Rightarrow> string option" where
  "last_message lastError = (case lastError of None \<Rightarrow> None | Some e \<Rightarrow> err_message e)"

definition last_text :: "js_error option \<Rightarrow> string" where
  "last_text lastError = (case lastError of None \<Rightarrow> ''null'' | Some e \<Rightarrow> err_text e)"

definition give_up ::
  "js_error option \<Rightarrow> 'st TranscriptionService \<times> 'st
     \<Rightarrow> (string + unit) \<times> ('st TranscriptionService \<times> 'st)" where
  "give_up lastError \<sigma> =
     (Inl (''Failed to connect to transcription service: '' @
           or_else (last_message lastError) (last_text lastError)),
      dispatch_error (or_else (last_message lastError) ''Failed to connect to Deepgram'') \<sigma>)"

function connect_loop ::
  "nat \<Rightarrow> js_error option \<Rightarrow> attempt list \<Rightarrow> 'st TranscriptionService \<times> 'st
     \<Rightarrow> (string + unit) \<times> ('st TranscriptionService \<times> 'st) \<times> io list" where
  "connect_loop attempts lastError scripts \<sigma> =
     (if attempts < maxAttempts then
        (case run_attempt (next_attempt scripts) \<sigma> of
           (Inr u, \<sigma>', out) \<Rightarrow> (Inr (), \<sigma>', out)
         | (Inl e, \<sigma>', out) \<Rightarrow>
             if is_transient e
             then (case connect_loop (attempts + 1) (Some e) (tl scripts) \<sigma>' of
                     (r, \<sigma>'', out') \<Rightarrow> (r, \<sigma>'', out @ [Waited 500] @ out'))
             else (case give_up (Some e) \<sigma>' of (r, \<sigma>'') \<Rightarrow> (r, \<sigma>'', out)))
      else (case give_up lastError \<sigma> of (r, \<sigma>') \<Rightarrow> (r, \<sigma>', [])))"
  by pat_completeness auto
termination
  by (relation "measure (\<lambda>(attempts, _, _, _). maxAttempts - attempts)") auto

declare connect_loop.simps [simp del]

definition connect ::
  "attempt list \<Rightarrow> 'st TranscriptionService \<times> 'st
     \<Rightarrow> (string + unit) \<times> ('st TranscriptionService \<times> 'st) \<times> io list" where
  "connect scripts \<sigma> =
     (if isConnected (fst \<sigma>) then (Inr (), \<sigma>, []) else connect_loop 0 None scripts \<sigma>)"

text \<open>
  \<^verbatim>\<open>sendAudio\<close>. The input is raw samples or a blob; of a blob the model holds the bytes
  that \<^verbatim>\<open>arrayBuffer()\<close> yields, \<open>None\<close> when that call rejects. \<open>send_ok\<close> tells
  whether the send call of the SDK returns normally.
\<close>

datatype audio = Samples "number list" | Blob "8 word list option"

definition audio_buffer :: "audio \<Rightarrow> 8 word list option" where
  "audio_buffer a = (case a of Samples xs \<Rightarrow> Some (float32ToLinear16 xs) | Blob b \<Rightarrow> b)"

definition sendAudio ::
  "audio \<Rightarrow> bool \<Rightarrow> 'st TranscriptionService \<Rightarrow> (string + unit) \<times> io list" where
  "sendAudio audioData send_ok s =
     (if \<not> isConnected s \<or> connection s = None
      then (Inl ''Not connected to transcription service'', [])
      else (case audio_buffer audioData of
              None \<Rightarrow> (Inl ''Failed to send audio for transcription'', [])
            | Some audioBuffer \<Rightarrow>
                if send_ok then (Inr (), [Sent audioBuffer])
                else (Inl ''Failed to send audio for transcription'', [])))"

subsection \<open>Probes and the validation of the key\<close>

record DiagnosticResult =
  success :: bool
  message :: string
  code :: "nat option"
  reason :: "string option"

text \<open>\<^verbatim>\<open>${code}\<close> for a code that may be undefined.\<close>

definition show_code :: "nat option \<Rightarrow> string" where
  "show_code c = (case c of None \<Rightarrow> ''undefined'' | Some n \<Rightarrow> show_nat n)"

text \<open>
  The promise of \<^verbatim>\<open>probeConnection\<close>: the first open, error or close event finishes
  it, the timer finishes it when the list of events that arrive in time ends. On every
  path the probe connection is finished before the result is given; the probe connection
  is local to the function and leaves the service as it was.
\<close>

fun probe_wait :: "event list \<Rightarrow> DiagnosticResult" where
  "probe_wait [] =
     \<lparr>success = False, message = ''WebSocket probe timed out'', code = None, reason = None\<rparr>"
| "probe_wait (Open # es) =
     \<lparr>success = True, message = ''WebSocket opened successfully'', code = None, reason = None\<rparr>"
| "probe_wait (Error e # es) =
     \<lparr>success = False, message = ''Error: '' @ or_else (err_message e) (err_text e),
      code = None, reason = None\<rparr>"
| "probe_wait (Close c r # es) =
     \<lparr>success = False, message = ''Closed (code '' @ show_code c @ '')'' @ reason_suffix r,
      code = c, reason = r\<rparr>"
| "probe_wait (ev # es) = probe_wait es"

definition probeConnection :: "attempt \<Rightarrow> DiagnosticResult" where
  "probeConnection a =
     (case a of
        LiveThrows e late \<Rightarrow>
          \<lparr>success = False, message = ''Probe failed: '' @ or_else (err_message e) (err_text e),
           code = None, reason = None\<rparr>
      | Events evs \<Rightarrow> probe_wait evs)"

text \<open>
  \<^verbatim>\<open>probeDeepgramNative\<close>: the argument is what the call into the native side yields,
  its result or the error it rejects with.
\<close>

definition probeDeepgramNative :: "js_error + DiagnosticResult \<Rightarrow> DiagnosticResult" where
  "probeDeepgramNative invoked =
     (case invoked of
        Inr result \<Rightarrow> result
      | Inl e \<Rightarrow>
          \<lparr>success = False,
           message = ''Native probe failed: '' @ or_else (err_message e) (err_text e),
           code = None, reason = None\<rparr>)"

definition auth_failed_message :: string where
  "auth_failed_message = ''Authentication failed '' @ em_dash @ '' check your Deepgram API key''"

definition network_failed_prefix :: string where
  "network_failed_prefix = ''WebSocket connection failed (possible network/firewall/proxy issue): ''"

definition generic_failed_prefix :: string where
  "generic_failed_prefix = ''Deepgram API key validation failed: ''"

definition validateApiKey :: "attempt \<Rightarrow> js_error + DiagnosticResult \<Rightarrow> string + unit" where
  "validateApiKey primary invoked =
     (let probe = probeConnection primary in
      if success probe then Inr ()
      else
        let nativeProbe = probeDeepgramNative invoked in
        if success nativeProbe then Inr ()
        else
          let msg = or_else (Some (message nativeProbe)) (or_else (Some (message probe)) [])
          in
            if regex_test [[Lit ''Authentication failed''], [Lit ''401''], [Lit ''Unauthorized''],
                           [Lit ''access token'']] msg
            then Inl auth_failed_message
            else if regex_test [[Lit ''timed out''], [Lit ''WebSocket probe timed out''],
                                [Lit ''timeout''], [Lit ''Timeout'']] msg
                    \<or> code probe = Some 1006
            then Inl (network_failed_prefix @ msg)
            else Inl (generic_failed_prefix @ msg))"

section \<open>The audio capture service\<close>

text \<open>
  Of the capture service the orchestrator needs: whether the media stream is there, and
  whether it is recording (the field \<^verbatim>\<open>isRecording\<close> of the class).
\<close>

record AudioCaptureService =
  mediaStream :: bool
  audio_isRecording :: bool

definition new_AudioCaptureService :: AudioCaptureService where
  "new_AudioCaptureService = \<lparr>mediaStream = False, audio_isRecording = False\<rparr>"

definition requestMicrophoneAccess ::
  "bool \<Rightarrow> AudioCaptureService \<Rightarrow> string + AudioCaptureService" where
  "requestMicrophoneAccess granted a =
     (if granted then Inr (a\<lparr>mediaStream := True\<rparr>)
      else Inl ''Microphone access denied. Please grant permission to use the microphone.'')"

definition audio_startRecording :: "AudioCaptureService \<Rightarrow> string + AudioCaptureService" where
  "audio_startRecording a =
     (if \<not> mediaStream a
      then Inl ''Media stream not initialized. Call requestMicrophoneAccess() first.''
      else if audio_isRecording a then Inr a
      else Inr (a\<lparr>audio_isRecording := True\<rparr>))"

section \<open>The orchestrator (\<^verbatim>\<open>useVoiceToText\<close>)\<close>

record VoiceToTextState =
  isRecording :: bool
  isProcessing :: bool
  transcript :: string
  interimTranscript :: string
  error :: "string option"
  isReady :: bool

record hook =
  state :: VoiceToTextState
  audioServiceRef :: "AudioCaptureService option"
  transcriptionServiceRef :: "VoiceToTextState TranscriptionService option"

definition initial_state :: VoiceToTextState where
  "initial_state =
     \<lparr>isRecording = False, isProcessing = False, transcript = [], interimTranscript = [],
      error = None, isReady = False\<rparr>"

definition initial_hook :: hook where
  "initial_hook = \<lparr>state = initial_state, audioServiceRef = None, transcriptionServiceRef = None\<rparr>"

text \<open>The two callbacks that \<^verbatim>\<open>initialize\<close> registers, as state updaters.\<close>

definition transcript_callback :: "TranscriptionResult \<Rightarrow> VoiceToTextState \<Rightarrow> VoiceToTextState" where
  "transcript_callback result prev =
     (if result_isFinal result
      then prev\<lparr>transcript := transcript prev @ '' '' @ result_transcript result,
                interimTranscript := []\<rparr>
      else prev\<lparr>interimTranscript := result_transcript result\<rparr>)"

definition error_callback :: "string \<Rightarrow> VoiceToTextState \<Rightarrow> VoiceToTextState" where
  "error_callback msg prev = prev\<lparr>error := Some msg, isRecording := False, isProcessing := False\<rparr>"

text \<open>
  \<^verbatim>\<open>initialize\<close>. \<open>key\<close> is the configured key, \<open>granted\<close> whether the platform grants
  the microphone, \<open>primary\<close> and \<open>invoked\<close> what the two probes meet. Each step gives the
  message of the error it throws, if any, and the references as they are then.
\<close>

definition init_audio :: "bool \<Rightarrow> hook \<Rightarrow> string option \<times> hook" where
  "init_audio granted h =
     (case audioServiceRef h of
        Some a \<Rightarrow> (None, h)
      | None \<Rightarrow>
          (case requestMicrophoneAccess granted new_AudioCaptureService of
             Inl msg \<Rightarrow> (Some msg, h\<lparr>audioServiceRef := Some new_AudioCaptureService\<rparr>)
           | Inr a \<Rightarrow> (None, h\<lparr>audioServiceRef := Some a\<rparr>)))"

definition init_transcription ::
  "string \<Rightarrow> attempt \<Rightarrow> js_error + DiagnosticResult \<Rightarrow> hook \<Rightarrow> string option \<times> hook" where
  "init_transcription key primary invoked h =
     (case transcriptionServiceRef h of
        Some t \<Rightarrow> (None, h)
      | None \<Rightarrow>
          (case new_TranscriptionService key of
             Inl msg \<Rightarrow> (Some msg, h)
           | Inr t \<Rightarrow>
               (let h' = h\<lparr>transcriptionServiceRef :=
                            Some (onError error_callback (onTranscript transcript_callback t))\<rparr>
                in case validateApiKey primary invoked of
                     Inl msg \<Rightarrow> (Some msg, h')
                   | Inr u \<Rightarrow> (None, h'))))"

definition init_failed :: "string \<Rightarrow> hook \<Rightarrow> hook" where
  "init_failed msg h = h\<lparr>state := (state h)\<lparr>error := Some msg, isProcessing := False, isReady := False\<rparr>\<rparr>"

definition initialize :: "string \<Rightarrow> bool \<Rightarrow> attempt \<Rightarrow> js_error + DiagnosticResult \<Rightarrow> hook \<Rightarrow> hook" where
  "initialize key granted primary invoked h =
     (let h1 = h\<lparr>state := (state h)\<lparr>isProcessing := True, error := None\<rparr>\<rparr> in
      case init_audio granted h1 of
        (Some msg, h2) \<Rightarrow> init_failed msg h2
      | (None, h2) \<Rightarrow>
          (case init_transcription key primary invoked h2 of
             (Some msg, h3) \<Rightarrow> init_failed msg h3
           | (None, h3) \<Rightarrow> h3\<lparr>state := (state h3)\<lparr>isProcessing := False, isReady := True\<rparr>\<rparr>))"

text \<open>
  \<^verbatim>\<open>startRecording\<close>. \<open>scripts\<close> is what the endpoint does in the attempts of
  \<^verbatim>\<open>connect\<close>. The result holds the calls on the SDK that were made.
\<close>

definition startRecording_reset :: "VoiceToTextState \<Rightarrow> VoiceToTextState" where
  "startRecording_reset prev =
     prev\<lparr>isProcessing := True, error := None, transcript := [], interimTranscript := []\<rparr>"

definition startRecording_failed :: "string \<Rightarrow> VoiceToTextState \<Rightarrow> VoiceToTextState" where
  "startRecording_failed msg prev =
     prev\<lparr>error := Some msg, isRecording := False, isProcessing := False\<rparr>"

definition startRecording :: "attempt list \<Rightarrow> hook \<Rightarrow> hook \<times> io list" where
  "startRecording scripts h =
     (case (audioServiceRef h, transcriptionServiceRef h) of
        (Some a, Some t) \<Rightarrow>
          (case connect scripts (t, startRecording_reset (state h)) of
             (Inl msg, (t', st), out) \<Rightarrow>
               (h\<lparr>state := startRecording_failed msg st, transcriptionServiceRef := Some t'\<rparr>, out)
           | (Inr u, (t', st), out) \<Rightarrow>
               (case audio_startRecording a of
                  Inl msg \<Rightarrow>
                    (h\<lparr>state := startRecording_failed msg st,
                       transcriptionServiceRef := Some t'\<rparr>, out)
                | Inr a' \<Rightarrow>
                    (h\<lparr>state := st\<lparr>isRecording := True, isProcessing := False\<rparr>,
                       audioServiceRef := Some a', transcriptionServiceRef := Some t'\<rparr>, out)))
      | _ \<Rightarrow> (h\<lparr>state := (state h)\<lparr>error := Some ''Services not initialized''\<rparr>\<rparr>, []))"

text \<open>
  An event that a connection emits while the orchestrator holds the service, and the
  callback that capture invokes on each frame (a failed send is logged, nothing more).
\<close>

definition hook_event :: "event \<Rightarrow> hook \<Rightarrow> hook" where
  "hook_event ev h =
     (case transcriptionServiceRef h of
        None \<Rightarrow> h
      | Some t \<Rightarrow>
          (case connection_event ev (t, state h) of
             (t', st) \<Rightarrow> h\<lparr>state := st, transcriptionServiceRef := Some t'\<rparr>))"

definition frame_callback :: "number list \<Rightarrow> bool \<Rightarrow> hook \<Rightarrow> io list" where
  "frame_callback audioChunk send_ok h =
     (case transcriptionServiceRef h of
        None \<Rightarrow> []
      | Some t \<Rightarrow> snd (sendAudio (Samples audioChunk) send_ok t))"

definition clearTranscript :: "hook \<Rightarrow> hook" where
  "clearTranscript h =
     h\<lparr>state := (state h)\<lparr>transcript := [], interimTranscript := [], error := None\<rparr>\<rparr>"

section \<open>Inputs and states that the statements below use\<close>

text \<open>Transcription results as the claims write them, and a run of the transcript callback.\<close>

definition interim :: "string \<Rightarrow> TranscriptionResult" where
  "interim t = \<lparr>result_transcript = t, result_isFinal = False, result_confidence = 0\<rparr>"

definition final :: "string \<Rightarrow> TranscriptionResult" where
  "final t = \<lparr>result_transcript = t, result_isFinal = True, result_confidence = 0\<rparr>"

definition merge_events :: "TranscriptionResult list \<Rightarrow> VoiceToTextState \<Rightarrow> VoiceToTextState" where
  "merge_events rs st = foldl (\<lambda>st' r. transcript_callback r st') st rs"

text \<open>A service with the two callbacks of the orchestrator registered, never connected.\<close>

definition registered_service :: "VoiceToTextState TranscriptionService" where
  "registered_service =
     onError error_callback (onTranscript transcript_callback
       \<lparr>apiKey = ''key'', connection = None, isConnected = False,
        onTranscriptCallback = None, onErrorCallback = None\<rparr>)"

text \<open>The orchestrator after an \<^verbatim>\<open>initialize\<close> in which everything succeeds.\<close>

definition ready_hook :: hook where
  "ready_hook =
     initialize ''key'' True (Events [Open]) (Inl (JsError None ''unused'')) initial_hook"

text \<open>An event that does not finish a probe: a transcript or metadata event.\<close>

definition unheard :: "event \<Rightarrow> bool" where
  "unheard ev = (case ev of Transcript d \<Rightarrow> True | Metadata \<Rightarrow> True | _ \<Rightarrow> False)"

text \<open>
  An open event, of the new connection or of an earlier one; the events of an attempt; the
  number of calls that create a connection.
\<close>

fun opens :: "event \<Rightarrow> bool" where
  "opens Open = True"
| "opens (Transcript d) = False"
| "opens Metadata = False"
| "opens (Error e) = False"
| "opens (Close c r) = False"
| "opens (Earlier ev) = opens ev"

definition attempt_events :: "attempt \<Rightarrow> event list" where
  "attempt_events a = (case a of LiveThrows e late \<Rightarrow> late | Events evs \<Rightarrow> evs)"

text \<open>
  The first connection emits an error event with a transient message and, during the wait
  that follows, an open event; the second connection stays silent.
\<close>

definition late_open_script :: "attempt list" where
  "late_open_script =
     [Events [Error (JsError (Some ''Network error'') ''Error: Network error''), Open],
      Events []]"

definition live_calls :: "io list \<Rightarrow> nat" where
  "live_calls out = length (filter (\<lambda>a. a = LiveCalled) out)"

text \<open>
  The orchestrator after an \<^verbatim>\<open>initialize\<close> in which the microphone is granted and the
  validation of the key fails: both probes fail.
\<close>

definition validation_failed_hook :: hook where
  "validation_failed_hook =
     initialize ''key'' True (Events [])
       (Inl (JsError (Some ''unreachable'') ''Error: unreachable'')) initial_hook"

text \<open>The orchestrator that is ready and has received the final result hello.\<close>

definition heard_hook :: hook where
  "heard_hook = hook_event (Transcript (TranscriptData (Some ''hello'') True None)) ready_hook"

section \<open>Properties of the encoder\<close>

lemma bytes_roundtrip:
  "(ucast (ucast w :: 8 word) :: 16 word) OR push_bit 8 (ucast (ucast (drop_bit 8 w :: 16 word) :: 8 word)) = w"
  by (rule bit_eqI) (auto simp: bit_simps)

lemma decode_int16_bytes: "decode_le16 (int16_bytes w @ bs) = sint w # decode_le16 bs"
  by (simp add: int16_bytes_def bytes_roundtrip)

lemma decode_concat_bytes: "decode_le16 (concat (map int16_bytes ws)) = map sint ws"
  by (induction ws) (simp_all add: decode_int16_bytes)

lemma trunc_nonneg: "0 \<le> x \<Longrightarrow> trunc x = \<lfloor>x\<rfloor>"
  by (simp add: trunc_def)

lemma trunc_neg: "x < 0 \<Longrightarrow> trunc x = - \<lfloor>- x\<rfloor>"
  by (simp add: trunc_def)

lemma trunc_scaled_lower:
  assumes "- 1 \<le> c"
  shows "- 32768 \<le> trunc (if 0 \<le> c then c * 32767 else c * 32768)"
proof (cases "0 \<le> c")
  case True
  then have nonneg: "0 \<le> c * 32767" by simp
  then have "0 \<le> \<lfloor>c * 32767\<rfloor>" by (simp only: zero_le_floor)
  then have "- 32768 \<le> trunc (c * 32767)" by (simp only: trunc_nonneg [OF nonneg])
  with True show ?thesis by (simp only: if_True)
next
  case False
  then have neg: "c * 32768 < 0" by simp
  have "- (c * 32768) \<le> 32768" using assms by simp
  then have "\<lfloor>- (c * 32768)\<rfloor> \<le> 32768" by (simp add: floor_le_iff)
  then have "- 32768 \<le> - \<lfloor>- (c * 32768)\<rfloor>" by linarith
  then have "- 32768 \<le> trunc (c * 32768)" by (simp only: trunc_neg [OF neg])
  with False show ?thesis by (simp only: if_False)
qed

lemma trunc_scaled_upper:
  assumes "c \<le> 1"
  shows "trunc (if 0 \<le> c then c * 32767 else c * 32768) \<le> 32767"
proof (cases "0 \<le> c")
  case True
  then have nonneg: "0 \<le> c * 32767" by simp
  have "c * 32767 \<le> 32767" using assms by simp
  then have "\<lfloor>c * 32767\<rfloor> \<le> 32767" by (simp add: floor_le_iff)
  then have "trunc (c * 32767) \<le> 32767" by (simp only: trunc_nonneg [OF nonneg])
  with True show ?thesis by (simp only: if_True)
next
  case False
  then have neg: "c * 32768 < 0" by simp
  then have "0 \<le> - (c * 32768)" by simp
  then have "0 \<le> \<lfloor>- (c * 32768)\<rfloor>" by (simp only: zero_le_floor)
  then have "- \<lfloor>- (c * 32768)\<rfloor> \<le> 32767" by linarith
  then have "trunc (c * 32768) \<le> 32767" by (simp only: trunc_neg [OF neg])
  with False show ?thesis by (simp only: if_False)
qed

lemma encode_sample_spec_range:
  "- 32768 \<le> encode_sample_spec f \<and> encode_sample_spec f \<le> 32767"
  unfolding encode_sample_spec_def Let_def
  using trunc_scaled_lower [of "max (- 1) (min 1 f)"] trunc_scaled_upper [of "max (- 1) (min 1 f)"]
  by simp

lemma convert_sample_Num:
  "convert_sample (Num f) =
     Num (let c = max (- 1) (min 1 f) in if 0 \<le> c then c * 32767 else c * 32768)"
  by (cases "f < 0") (auto simp: convert_sample_def Let_def not_le min_def max_def)

lemma sint_to_int16_Num: "sint (to_int16 (convert_sample (Num f))) = encode_sample_spec f"
proof -
  have "sint (word_of_int (encode_sample_spec f) :: 16 word) = encode_sample_spec f"
    using encode_sample_spec_range [of f]
    by (simp add: sint_sbintrunc' signed_take_bit_int_eq_self)
  then show ?thesis
    by (simp add: convert_sample_Num encode_sample_spec_def Let_def)
qed

lemma sint_to_int16:
  "sint (to_int16 (convert_sample x)) =
     (case x of Num f \<Rightarrow> encode_sample_spec f | PosInfinity \<Rightarrow> 32767
      | NegInfinity \<Rightarrow> - 32768 | NaN \<Rightarrow> 0)"
proof (cases x)
  case (Num f)
  then show ?thesis by (simp add: sint_to_int16_Num)
next
  case PosInfinity
  then show ?thesis by (simp add: convert_sample_def trunc_def)
next
  case NegInfinity
  then show ?thesis by (simp add: convert_sample_def trunc_def)
next
  case NaN
  then show ?thesis by (simp add: convert_sample_def)
qed

lemma sint_fill_int16:
  "map sint (fill_int16 xs) =
     map (\<lambda>x. case x of Num f \<Rightarrow> encode_sample_spec f | PosInfinity \<Rightarrow> 32767
               | NegInfinity \<Rightarrow> - 32768 | NaN \<Rightarrow> 0) xs"
  by (induction xs) (simp_all add: sint_to_int16)

lemma length_float32ToLinear16: "length (float32ToLinear16 xs) = 2 * length xs"
  by (induction xs) (simp_all add: float32ToLinear16_def int16_bytes_def)

lemma encode_one: "float32ToLinear16 [Num 1] = [0xFF, 0x7F] \<and> encode_sample_spec 1 = 32767"
  by (simp add: float32ToLinear16_def int16_bytes_def convert_sample_def trunc_def
      encode_sample_spec_def)

lemma encode_minus_one:
  "float32ToLinear16 [Num (- 1)] = [0x00, 0x80] \<and> encode_sample_spec (- 1) = - 32768"
  by (simp add: float32ToLinear16_def int16_bytes_def convert_sample_def trunc_def
      encode_sample_spec_def)

lemma encode_zero: "float32ToLinear16 [Num 0] = [0, 0] \<and> encode_sample_spec 0 = 0"
  by (simp add: float32ToLinear16_def int16_bytes_def convert_sample_def trunc_def
      encode_sample_spec_def)

text \<open>
  C2. The encoder is a total function of its input. The bytes it gives, read as
  little-endian signed 16-bit values, are sample by sample the clamped, scaled and
  truncated value of the specification (an infinity is clamped like any other value; NaN,
  which clamping leaves as it is, is stored as 0). Every value lies in the range of a
  signed 16-bit integer, so storing never wraps. The output has two bytes per sample, and
  1, -1 and 0 encode to 32767, -32768 and 0.
\<close>

theorem float32ToLinear16_encoding:
  "length (float32ToLinear16 xs) = 2 * length xs
   \<and> decode_le16 (float32ToLinear16 xs) =
       map (\<lambda>x. case x of Num f \<Rightarrow> encode_sample_spec f | PosInfinity \<Rightarrow> 32767
                 | NegInfinity \<Rightarrow> - 32768 | NaN \<Rightarrow> 0) xs
   \<and> - 32768 \<le> encode_sample_spec f \<and> encode_sample_spec f \<le> 32767
   \<and> float32ToLinear16 [Num 1] = [0xFF, 0x7F] \<and> encode_sample_spec 1 = 32767
   \<and> float32ToLinear16 [Num (- 1)] = [0x00, 0x80] \<and> encode_sample_spec (- 1) = - 32768
   \<and> float32ToLinear16 [Num 0] = [0, 0] \<and> encode_sample_spec 0 = 0"
proof -
  have "decode_le16 (float32ToLinear16 xs) = map sint (fill_int16 xs)"
    by (simp add: float32ToLinear16_def decode_concat_bytes)
  then show ?thesis
    using length_float32ToLinear16 [of xs] sint_fill_int16 [of xs]
      encode_sample_spec_range [of f] encode_one encode_minus_one encode_zero
    by simp
qed

section \<open>Merging transcripts\<close>

lemma transcript_callback_interim:
  "\<not> result_isFinal r \<Longrightarrow> transcript_callback r st = st\<lparr>interimTranscript := result_transcript r\<rparr>"
  by (simp add: transcript_callback_def)

lemma transcript_callback_final:
  "result_isFinal r \<Longrightarrow>
   transcript_callback r st =
     st\<lparr>transcript := transcript st @ '' '' @ result_transcript r, interimTranscript := []\<rparr>"
  by (simp add: transcript_callback_def)

text \<open>
  C1, the claim as it stands fails: from an empty transcript the three events give the
  transcript \<open>'' hello''\<close>, with the separating space in front, not \<open>''hello''\<close>.
\<close>

theorem transcript_merge_counterexample:
  "transcript (merge_events [interim ''he'', interim ''hell'', final ''hello''] initial_state)
     \<noteq> ''hello''"
  by (simp add: merge_events_def interim_def final_def transcript_callback_def initial_state_def)

text \<open>
  C1, amended. In every state an interim result replaces \<open>interimTranscript\<close> and leaves
  \<open>transcript\<close>; a final result appends a space and its text to \<open>transcript\<close> and empties
  \<open>interimTranscript\<close>. The separator is added also when the transcript is empty: from
  any state with an empty transcript the events interim he, interim hell, final hello give
  the transcript \<open>'' hello''\<close> and an empty interim transcript, and a following final
  \<open>'' world''\<close> gives \<open>'' hello  world''\<close>.
\<close>

theorem transcript_merge:
  "transcript_callback (interim t) st = st\<lparr>interimTranscript := t\<rparr>
   \<and> transcript_callback (final t) st =
       st\<lparr>transcript := transcript st @ '' '' @ t, interimTranscript := []\<rparr>
   \<and> transcript (merge_events [interim ''he'', interim ''hell'', final ''hello'']
        (st\<lparr>transcript := []\<rparr>)) = '' hello''
   \<and> interimTranscript (merge_events [interim ''he'', interim ''hell'', final ''hello'']
        (st\<lparr>transcript := []\<rparr>)) = []
   \<and> transcript (merge_events [interim ''he'', interim ''hell'', final ''hello'', final '' world'']
        (st\<lparr>transcript := []\<rparr>)) = '' hello  world''"
  by (simp add: merge_events_def interim_def final_def transcript_callback_def)

section \<open>Final events at the orchestrator\<close>

lemma ready_hook_service:
  "transcriptionServiceRef ready_hook = Some registered_service"
  by (simp add: ready_hook_def initialize_def init_audio_def init_transcription_def
      requestMicrophoneAccess_def new_AudioCaptureService_def new_TranscriptionService_def
      validateApiKey_def probeConnection_def initial_hook_def registered_service_def
      split: prod.splits)

text \<open>
  C8, the claim as it stands fails on a final event with an empty text: the service drops
  it before the orchestrator sees it, and the interim transcript stays as it was.
\<close>

theorem final_event_empty_counterexample:
  "interimTranscript (state
     (hook_event (Transcript (TranscriptData (Some []) True None))
       (hook_event (Transcript (TranscriptData (Some ''he'') False None)) ready_hook))) = ''he''"
  by (simp add: hook_event_def ready_hook_service registered_service_def onError_def
      onTranscript_def handle_transcript_def transcript_callback_def split: prod.splits)

text \<open>
  C8, amended. While the transcript callback of the orchestrator is registered with the
  service, every received transcript event that is final and has a non-empty text appends
  a space and that text to \<open>transcript\<close>, once, and empties \<open>interimTranscript\<close>. A
  transcript event with an empty or missing text is dropped by the service: the
  orchestrator is as before, and the interim transcript is not cleared.
\<close>

theorem final_event_appends_once:
  assumes "transcriptionServiceRef h = Some s"
    and "onTranscriptCallback s = Some transcript_callback"
  shows "(t \<noteq> [] \<longrightarrow>
            state (hook_event (Transcript (TranscriptData (Some t) True c)) h) =
              (state h)\<lparr>transcript := transcript (state h) @ '' '' @ t, interimTranscript := []\<rparr>)
         \<and> hook_event (Transcript (TranscriptData (Some []) fin c)) h = h
         \<and> hook_event (Transcript (TranscriptData None fin c)) h = h"
  using assms
  by (simp add: hook_event_def handle_transcript_def transcript_callback_def)

theorem final_event_appends_once_witness:
  "transcriptionServiceRef ready_hook = Some registered_service
   \<and> onTranscriptCallback registered_service = Some transcript_callback
   \<and> state (hook_event (Transcript (TranscriptData (Some ''hello'') True None)) ready_hook) =
       (state ready_hook)\<lparr>transcript := transcript (state ready_hook) @ '' hello'',
                          interimTranscript := []\<rparr>"
proof -
  have cb: "onTranscriptCallback registered_service = Some transcript_callback"
    by (simp add: registered_service_def onError_def onTranscript_def)
  show ?thesis
    using final_event_appends_once [OF ready_hook_service cb, of "''hello''" None] cb
      ready_hook_service
    by simp
qed

section \<open>Sending without a connection\<close>

text \<open>
  C4. On a service that is not connected (\<open>isConnected\<close> false: never connected, closed
  or disconnected), or that has no connection object, \<^verbatim>\<open>sendAudio\<close> fails with the
  not-connected error for every input, and nothing is sent.
\<close>

theorem sendAudio_not_connected:
  "\<not> isConnected s \<or> connection s = None \<Longrightarrow>
   sendAudio audioData send_ok s = (Inl ''Not connected to transcription service'', [])"
  by (auto simp: sendAudio_def)

theorem sendAudio_not_connected_witness:
  "\<not> isConnected registered_service
   \<and> sendAudio (Samples [Num 1]) True registered_service =
       (Inl ''Not connected to transcription service'', [])"
proof -
  have h: "\<not> isConnected registered_service"
    by (simp add: registered_service_def onError_def onTranscript_def)
  then have "\<not> isConnected registered_service \<or> connection registered_service = None" by simp
  from sendAudio_not_connected [OF this] h show ?thesis by simp
qed

section \<open>Close events\<close>

lemma starts_with_append: "starts_with (p @ s) p"
  by (induction p) simp_all

lemma str_includes_prefix: "starts_with s sub \<Longrightarrow> str_includes s sub"
  by (cases s; cases sub) simp_all

lemma str_includes_append: "str_includes (a @ sub @ b) sub"
  by (induction a) (simp_all add: str_includes_prefix starts_with_append)

lemma show_nat_1006: "show_nat 1006 = ''1006''"
  by code_simp

lemma close_message_includes_code: "str_includes (close_message c r) (show_nat c)"
proof (cases "c = 1006")
  case True
  have "close_message 1006 r = ''Connection closed abnormally ('' @ ''1006'' @
      ('')'' @ '' '' @ em_dash @
       '' possible network/firewall/TLS/proxy issue blocking WebSocket connections'')"
    by (simp add: close_message_def)
  then have "str_includes (close_message 1006 r) ''1006''"
    by (simp only: str_includes_append)
  with True show ?thesis by (simp only: show_nat_1006)
next
  case False
  then have "close_message c r = ''Connection closed (code '' @ show_nat c @ ('')'' @ reason_suffix r)"
    by (simp add: close_message_def)
  then show ?thesis by (simp only: str_includes_append)
qed

lemma handle_close_dispatch:
  "onErrorCallback s = Some cb \<Longrightarrow> c \<noteq> 0 \<Longrightarrow> c \<noteq> 1000 \<Longrightarrow>
   connection_event (Close (Some c) r) (s, st) =
     (s\<lparr>isConnected := False\<rparr>, cb (close_message c r) st)"
  by (simp add: handle_close_def dispatch_error_def)

lemma handle_close_silent:
  "k = None \<or> k = Some 0 \<or> k = Some 1000 \<Longrightarrow>
   connection_event (Close k r) (s, st) = (s\<lparr>isConnected := False\<rparr>, st)"
  by (auto simp: handle_close_def)

text \<open>
  C9, the claim as it stands fails. A close event without a code, or with the code 0, has
  a code other than 1000 and the registered error callback is not invoked: the state of
  the orchestrator stays as it was. And for a code other than 1006, here 1008, the message
  is the generic text with the code, with no word of a network failure.
\<close>

theorem close_event_dispatch_counterexample:
  "snd (connection_event (Close None None) (registered_service, initial_state)) = initial_state
   \<and> snd (connection_event (Close (Some 0) None) (registered_service, initial_state))
       = initial_state
   \<and> error (snd (connection_event (Close (Some 1008) None) (registered_service, initial_state)))
       = Some ''Connection closed (code 1008)''"
proof -
  have "show_nat 1008 = ''1008''" by code_simp
  then show ?thesis
    by (simp add: handle_close_def dispatch_error_def registered_service_def onError_def
        onTranscript_def error_callback_def close_message_def reason_suffix_def)
qed

text \<open>
  C9, amended. For every close event whose code is present, not 0 and not 1000, whatever
  came before, the session sets \<open>isConnected\<close> to false and invokes the registered error
  callback with a message that includes the code: for 1006 the text of an abnormal closure
  that names network, firewall, TLS and proxy; for any other code the text
  \<^verbatim>\<open>Connection closed (code N)\<close>, followed by the reason when there is one. A close
  event with the code 1000, with the code 0 or without a code only sets \<open>isConnected\<close> to
  false: the error callback is not invoked.
\<close>

theorem close_event_dispatch:
  assumes "onErrorCallback s = Some cb"
  shows "(c \<noteq> 0 \<and> c \<noteq> 1000 \<longrightarrow>
            connection_event (Close (Some c) r) (s, st) =
              (s\<lparr>isConnected := False\<rparr>, cb (close_message c r) st)
            \<and> str_includes (close_message c r) (show_nat c))
         \<and> close_message 1006 r =
             ''Connection closed abnormally (1006) '' @ em_dash @
             '' possible network/firewall/TLS/proxy issue blocking WebSocket connections''
         \<and> (c \<noteq> 1006 \<longrightarrow>
              close_message c r = ''Connection closed (code '' @ show_nat c @ '')'' @ reason_suffix r)
         \<and> connection_event (Close (Some 1000) r) (s, st) = (s\<lparr>isConnected := False\<rparr>, st)
         \<and> connection_event (Close (Some 0) r) (s, st) = (s\<lparr>isConnected := False\<rparr>, st)
         \<and> connection_event (Close None r) (s, st) = (s\<lparr>isConnected := False\<rparr>, st)"
  using handle_close_dispatch [OF assms, of c r st] close_message_includes_code [of c r]
    handle_close_silent [of "Some 1000" r s st] handle_close_silent [of "Some 0" r s st]
    handle_close_silent [of None r s st]
  by (simp add: close_message_def)

theorem close_event_dispatch_witness:
  "onErrorCallback registered_service = Some error_callback
   \<and> connection_event (Close (Some 1006) None) (registered_service, initial_state) =
       (registered_service\<lparr>isConnected := False\<rparr>,
        error_callback (close_message 1006 None) initial_state)
   \<and> str_includes (close_message 1006 None) ''1006''
   \<and> connection_event (Close (Some 1000) None) (registered_service, initial_state) =
       (registered_service\<lparr>isConnected := False\<rparr>, initial_state)"
proof -
  have cb: "onErrorCallback registered_service = Some error_callback"
    by (simp add: registered_service_def onError_def)
  show ?thesis
    using close_event_dispatch [OF cb, of 1006 None initial_state] cb
    by (simp add: show_nat_1006)
qed

section \<open>Validation of the key\<close>

lemma probe_wait_unheard:
  "list_all unheard evs \<Longrightarrow>
   probe_wait evs =
     \<lparr>success = False, message = ''WebSocket probe timed out'', code = None, reason = None\<rparr>"
  by (induction evs rule: probe_wait.induct) (simp_all add: unheard_def)

lemma validateApiKey_resolves:
  "(validateApiKey primary invoked = Inr ()) =
     (success (probeConnection primary) \<or> success (probeDeepgramNative invoked))"
  by (simp add: validateApiKey_def Let_def)

lemma validateApiKey_throws:
  assumes "\<not> success (probeConnection primary)" "\<not> success (probeDeepgramNative invoked)"
  shows "\<exists>msg. validateApiKey primary invoked = Inl auth_failed_message
       \<or> validateApiKey primary invoked = Inl (network_failed_prefix @ msg)
       \<or> validateApiKey primary invoked = Inl (generic_failed_prefix @ msg)"
proof -
  define msg where
    "msg = or_else (Some (message (probeDeepgramNative invoked)))
             (or_else (Some (message (probeConnection primary))) [])"
  have "validateApiKey primary invoked = Inl auth_failed_message
      \<or> validateApiKey primary invoked = Inl (network_failed_prefix @ msg)
      \<or> validateApiKey primary invoked = Inl (generic_failed_prefix @ msg)"
    using assms by (simp add: validateApiKey_def Let_def msg_def)
  then show ?thesis by blast
qed

text \<open>
  C6. \<^verbatim>\<open>validateApiKey\<close> resolves exactly when the primary probe succeeds or the native
  probe succeeds, whatever made the primary probe fail; in particular when the primary
  probe times out (no open, error or close event arrives) and the native probe succeeds.
  It throws exactly when both fail, and what it throws is then the authentication
  message, a network message or the generic message.
\<close>

theorem validateApiKey_two_tier:
  "(validateApiKey primary invoked = Inr ()) =
     (success (probeConnection primary) \<or> success (probeDeepgramNative invoked))
   \<and> ((\<exists>msg. validateApiKey primary invoked = Inl msg) =
        (\<not> success (probeConnection primary) \<and> \<not> success (probeDeepgramNative invoked)))
   \<and> (\<not> success (probeConnection primary) \<and> \<not> success (probeDeepgramNative invoked) \<longrightarrow>
        (\<exists>msg. validateApiKey primary invoked = Inl auth_failed_message
           \<or> validateApiKey primary invoked = Inl (network_failed_prefix @ msg)
           \<or> validateApiKey primary invoked = Inl (generic_failed_prefix @ msg)))
   \<and> (list_all unheard evs \<and> success result \<longrightarrow>
        \<not> success (probeConnection (Events evs))
        \<and> validateApiKey (Events evs) (Inr result) = Inr ())"
proof -
  have "(\<exists>msg. validateApiKey primary invoked = Inl msg) = (validateApiKey primary invoked \<noteq> Inr ())"
    by (cases "validateApiKey primary invoked") simp_all
  moreover have "list_all unheard evs \<Longrightarrow> \<not> success (probeConnection (Events evs))"
    by (simp add: probeConnection_def probe_wait_unheard)
  moreover have "success result \<Longrightarrow> validateApiKey (Events evs) (Inr result) = Inr ()"
    by (simp add: validateApiKey_resolves probeDeepgramNative_def)
  ultimately show ?thesis
    using validateApiKey_resolves [of primary invoked] validateApiKey_throws [of primary invoked]
    by blast
qed

theorem validateApiKey_two_tier_witness:
  "list_all unheard [Metadata]
   \<and> success \<lparr>success = True, message = ''ok'', code = None, reason = None\<rparr>
   \<and> \<not> success (probeConnection (Events [Metadata]))
   \<and> validateApiKey (Events [Metadata])
       (Inr \<lparr>success = True, message = ''ok'', code = None, reason = None\<rparr>) = Inr ()
   \<and> \<not> success (probeConnection (Events [Close (Some 1006) None]))
   \<and> \<not> success (probeDeepgramNative (Inl (JsError (Some ''unreachable'') ''Error: unreachable'')))
   \<and> validateApiKey (Events [Close (Some 1006) None])
       (Inl (JsError (Some ''unreachable'') ''Error: unreachable'')) \<noteq> Inr ()"
proof -
  have a: "list_all unheard [Metadata]" by (simp add: unheard_def)
  have b: "success \<lparr>success = True, message = ''ok'', code = None, reason = None\<rparr>" by simp
  have c: "\<not> success (probeConnection (Events [Close (Some 1006) None]))"
    by (simp add: probeConnection_def)
  have d: "\<not> success (probeDeepgramNative (Inl (JsError (Some ''unreachable'') ''Error: unreachable'')))"
    by (simp add: probeDeepgramNative_def)
  show ?thesis
    using a b c d
      validateApiKey_two_tier [of "Events [Close (Some 1006) None]"
        "Inl (JsError (Some ''unreachable'') ''Error: unreachable'')" "[Metadata]"
        "\<lparr>success = True, message = ''ok'', code = None, reason = None\<rparr>"]
    by simp
qed

section \<open>When the session is open\<close>

lemma fst_dispatch_error: "fst (dispatch_error msg \<sigma>) = fst \<sigma>"
  by (simp add: dispatch_error_def split: option.splits)

lemma fst_handle_transcript: "fst (handle_transcript d \<sigma>) = fst \<sigma>"
  by (simp add: handle_transcript_def split: option.splits)

lemma fst_handle_close: "fst (handle_close c r \<sigma>) = (fst \<sigma>)\<lparr>isConnected := False\<rparr>"
  by (simp add: handle_close_def Let_def fst_dispatch_error split: option.splits)

lemma fst_handle_error: "fst (handle_error e \<sigma>) = fst \<sigma>"
  by (simp add: handle_error_def fst_dispatch_error)

lemma connection_event_not_open:
  "\<not> opens ev \<Longrightarrow> \<not> isConnected (fst \<sigma>) \<Longrightarrow> \<not> isConnected (fst (connection_event ev \<sigma>))"
  by (induction ev)
    (simp_all add: fst_handle_transcript fst_handle_close fst_handle_error)

lemma run_events_Cons: "run_events (ev # evs) \<sigma> = run_events evs (connection_event ev \<sigma>)"
  by (simp add: run_events_def)

lemma run_events_append: "run_events (xs @ ys) \<sigma> = run_events ys (run_events xs \<sigma>)"
  by (simp add: run_events_def)

lemma run_events_not_open:
  "list_all (\<lambda>ev. \<not> opens ev) evs \<Longrightarrow> \<not> isConnected (fst \<sigma>) \<Longrightarrow>
   \<not> isConnected (fst (run_events evs \<sigma>))"
proof (induction evs arbitrary: \<sigma>)
  case Nil
  then show ?case by (simp add: run_events_def)
next
  case (Cons ev evs)
  from Cons.prems have "\<not> isConnected (fst (connection_event ev \<sigma>))"
    by (simp add: connection_event_not_open)
  with Cons show ?case by (simp add: run_events_Cons)
qed

lemma await_open_passes:
  "ev \<noteq> Open \<Longrightarrow> \<forall>e. ev \<noteq> Error e \<Longrightarrow>
   await_open (ev # es) \<sigma> = await_open es (connection_event ev \<sigma>)"
  by (cases ev) simp_all

lemma await_open_split:
  "\<exists>pre. evs = pre @ snd (snd (await_open evs \<sigma>))
        \<and> fst (snd (await_open evs \<sigma>)) = run_events pre \<sigma>"
proof (induction evs arbitrary: \<sigma>)
  case Nil
  show ?case by (simp add: run_events_def)
next
  case (Cons ev es)
  show ?case
  proof (cases "ev = Open \<or> (\<exists>e. ev = Error e)")
    case True
    then show ?thesis
      by (intro exI [of _ "[ev]"]) (auto simp: run_events_def)
  next
    case False
    then have pass: "await_open (ev # es) \<sigma> = await_open es (connection_event ev \<sigma>)"
      by (simp add: await_open_passes)
    from Cons.IH [of "connection_event ev \<sigma>"] obtain pre where
      "es = pre @ snd (snd (await_open es (connection_event ev \<sigma>)))"
      "fst (snd (await_open es (connection_event ev \<sigma>))) = run_events pre (connection_event ev \<sigma>)"
      by blast
    then show ?thesis
      by (intro exI [of _ "ev # pre"]) (simp add: pass run_events_Cons)
  qed
qed

lemma await_open_resolved:
  "fst (await_open evs \<sigma>) = Inr u \<Longrightarrow>
   Open \<in> set evs \<and> isConnected (fst (fst (snd (await_open evs \<sigma>))))"
  by (induction evs \<sigma> rule: await_open.induct) simp_all

lemma run_attempt_resolved:
  assumes "run_attempt a \<sigma> = (Inr u, \<sigma>', out)"
  shows "\<exists>evs. a = Events evs \<and> Open \<in> set evs \<and> isConnected (fst \<sigma>')"
proof (cases a)
  case (LiveThrows e late)
  with assms show ?thesis by (simp add: run_attempt_def)
next
  case (Events evs)
  with assms have "fst (await_open evs ((fst \<sigma>)\<lparr>connection := Some ()\<rparr>, snd \<sigma>)) = Inr u"
    and "fst (snd (await_open evs ((fst \<sigma>)\<lparr>connection := Some ()\<rparr>, snd \<sigma>))) = \<sigma>'"
    by (auto simp: run_attempt_def split: prod.splits sum.splits)
  with await_open_resolved [of evs "((fst \<sigma>)\<lparr>connection := Some ()\<rparr>, snd \<sigma>)" u] Events
  show ?thesis by simp
qed

lemma run_attempt_no_open:
  assumes "\<not> isConnected (fst \<sigma>)" "list_all (\<lambda>ev. \<not> opens ev) (attempt_events a)"
  shows "\<not> isConnected (fst (fst (snd (run_attempt a \<sigma>))))"
proof (cases a)
  case (LiveThrows e late)
  with assms show ?thesis
    by (simp add: run_attempt_def attempt_events_def run_events_not_open)
next
  case (Events evs)
  define \<sigma>0 where "\<sigma>0 = ((fst \<sigma>)\<lparr>connection := Some ()\<rparr>, snd \<sigma>)"
  obtain r \<sigma>1 late where aw: "await_open evs \<sigma>0 = (r, \<sigma>1, late)"
    by (cases "await_open evs \<sigma>0") auto
  from await_open_split [of evs \<sigma>0] aw obtain pre where
    pre: "evs = pre @ late" "\<sigma>1 = run_events pre \<sigma>0" by auto
  from assms(2) Events pre(1) have quiet:
    "list_all (\<lambda>ev. \<not> opens ev) pre" "list_all (\<lambda>ev. \<not> opens ev) late"
    by (simp_all add: attempt_events_def)
  have "\<not> isConnected (fst \<sigma>0)" using assms(1) by (simp add: \<sigma>0_def)
  then have one: "\<not> isConnected (fst \<sigma>1)"
    using quiet(1) pre(2) by (simp add: run_events_not_open)
  then have two: "\<not> isConnected (fst (run_events late \<sigma>1))"
    using quiet(2) by (simp add: run_events_not_open)
  from one two aw Events show ?thesis
    by (simp add: run_attempt_def \<sigma>0_def [symmetric] split: sum.splits)
qed

lemma run_attempt_out: "snd (snd (run_attempt a \<sigma>)) = [LiveCalled]"
  by (cases a) (simp_all add: run_attempt_def split: prod.splits sum.splits)

lemma give_up_eq:
  "give_up (Some e) \<sigma> =
     (Inl (''Failed to connect to transcription service: '' @ or_else (err_message e) (err_text e)),
      dispatch_error (or_else (err_message e) ''Failed to connect to Deepgram'') \<sigma>)"
  by (simp add: give_up_def last_message_def last_text_def)

lemma connect_loop_exhausted:
  "connect_loop (Suc (Suc 0)) lastError scripts \<sigma> =
     (fst (give_up lastError \<sigma>), snd (give_up lastError \<sigma>), [])"
  by (subst connect_loop.simps) (simp add: maxAttempts_def split: prod.splits)

lemma connect_loop_second:
  "connect_loop (Suc 0) lastError scripts \<sigma> =
     (case run_attempt (next_attempt scripts) \<sigma> of
        (Inr u, \<sigma>2, out2) \<Rightarrow> (Inr (), \<sigma>2, out2)
      | (Inl e2, \<sigma>2, out2) \<Rightarrow>
          (fst (give_up (Some e2) \<sigma>2), snd (give_up (Some e2) \<sigma>2),
           out2 @ (if is_transient e2 then [Waited 500] else [])))"
  by (subst connect_loop.simps)
    (simp add: maxAttempts_def connect_loop_exhausted split: prod.splits sum.splits)

lemma connect_unrolled:
  assumes "\<not> isConnected (fst \<sigma>)"
  shows "connect scripts \<sigma> =
     (case run_attempt (next_attempt scripts) \<sigma> of
        (Inr u, \<sigma>1, out1) \<Rightarrow> (Inr (), \<sigma>1, out1)
      | (Inl e1, \<sigma>1, out1) \<Rightarrow>
          if is_transient e1
          then (case run_attempt (next_attempt (tl scripts)) \<sigma>1 of
                  (Inr u, \<sigma>2, out2) \<Rightarrow> (Inr (), \<sigma>2, out1 @ [Waited 500] @ out2)
                | (Inl e2, \<sigma>2, out2) \<Rightarrow>
                    (fst (give_up (Some e2) \<sigma>2), snd (give_up (Some e2) \<sigma>2),
                     out1 @ [Waited 500] @ out2 @ (if is_transient e2 then [Waited 500] else [])))
          else (fst (give_up (Some e1) \<sigma>1), snd (give_up (Some e1) \<sigma>1), out1))"
  using assms
  by (simp add: connect_def, subst connect_loop.simps)
    (simp add: maxAttempts_def connect_loop_second split: prod.splits sum.splits)

lemma connect_cases:
  assumes "\<not> isConnected (fst \<sigma>)"
  obtains
    (first_ok) u \<sigma>1 out1 where
      "run_attempt (next_attempt scripts) \<sigma> = (Inr u, \<sigma>1, out1)"
      "connect scripts \<sigma> = (Inr (), \<sigma>1, out1)"
  | (first_fatal) e1 \<sigma>1 out1 where
      "run_attempt (next_attempt scripts) \<sigma> = (Inl e1, \<sigma>1, out1)" "\<not> is_transient e1"
      "connect scripts \<sigma> = (fst (give_up (Some e1) \<sigma>1), snd (give_up (Some e1) \<sigma>1), out1)"
  | (second_ok) e1 \<sigma>1 out1 u \<sigma>2 out2 where
      "run_attempt (next_attempt scripts) \<sigma> = (Inl e1, \<sigma>1, out1)" "is_transient e1"
      "run_attempt (next_attempt (tl scripts)) \<sigma>1 = (Inr u, \<sigma>2, out2)"
      "connect scripts \<sigma> = (Inr (), \<sigma>2, out1 @ [Waited 500] @ out2)"
  | (second_failed) e1 \<sigma>1 out1 e2 \<sigma>2 out2 where
      "run_attempt (next_attempt scripts) \<sigma> = (Inl e1, \<sigma>1, out1)" "is_transient e1"
      "run_attempt (next_attempt (tl scripts)) \<sigma>1 = (Inl e2, \<sigma>2, out2)"
      "connect scripts \<sigma> =
         (fst (give_up (Some e2) \<sigma>2), snd (give_up (Some e2) \<sigma>2),
          out1 @ [Waited 500] @ out2 @ (if is_transient e2 then [Waited 500] else []))"
proof -
  obtain r1 \<sigma>1 out1 where a1: "run_attempt (next_attempt scripts) \<sigma> = (r1, \<sigma>1, out1)"
    by (cases "run_attempt (next_attempt scripts) \<sigma>") auto
  obtain r2 \<sigma>2 out2 where a2: "run_attempt (next_attempt (tl scripts)) \<sigma>1 = (r2, \<sigma>2, out2)"
    by (cases "run_attempt (next_attempt (tl scripts)) \<sigma>1") auto
  show thesis
  proof (cases r1)
    case (Inr u)
    with a1 connect_unrolled [OF assms, of scripts] first_ok show thesis by simp
  next
    case e1: (Inl e1)
    show thesis
    proof (cases "is_transient e1")
      case False
      with a1 e1 connect_unrolled [OF assms, of scripts] first_fatal show thesis by simp
    next
      case True
      show thesis
      proof (cases r2)
        case (Inr u)
        with a1 a2 e1 True connect_unrolled [OF assms, of scripts] second_ok show thesis by simp
      next
        case (Inl e2)
        with a1 a2 e1 True connect_unrolled [OF assms, of scripts] second_failed
        show thesis by simp
      qed
    qed
  qed
qed

lemma fst_snd_give_up: "fst (snd (give_up lastError \<sigma>)) = fst \<sigma>"
  by (simp add: give_up_def fst_dispatch_error)

lemma fst_give_up: "fst (give_up lastError \<sigma>) \<noteq> Inr u"
  by (simp add: give_up_def)

lemma connect_resolved:
  assumes "\<not> isConnected (fst \<sigma>)" "connect scripts \<sigma> = (Inr u, \<sigma>', out)"
  shows "isConnected (fst \<sigma>') \<and>
         (\<exists>evs. (next_attempt scripts = Events evs \<or> next_attempt (tl scripts) = Events evs)
                \<and> Open \<in> set evs)"
proof (rule connect_cases [OF assms(1), of scripts], goal_cases)
  case (1 u1 \<sigma>1 out1)
  with assms(2) run_attempt_resolved [OF 1(1)] show ?case by auto
next
  case (2 e1 \<sigma>1 out1)
  with assms(2) fst_give_up [of "Some e1" \<sigma>1 u] show ?case by simp
next
  case (3 e1 \<sigma>1 out1 u2 \<sigma>2 out2)
  with assms(2) run_attempt_resolved [OF 3(3)] show ?case by auto
next
  case (4 e1 \<sigma>1 out1 e2 \<sigma>2 out2)
  with assms(2) fst_give_up [of "Some e2" \<sigma>2 u] show ?case by simp
qed

lemma connect_no_open:
  assumes "\<not> isConnected (fst \<sigma>)"
    and "list_all (\<lambda>ev. \<not> opens ev) (attempt_events (next_attempt scripts))"
    and "list_all (\<lambda>ev. \<not> opens ev) (attempt_events (next_attempt (tl scripts)))"
  shows "\<not> isConnected (fst (fst (snd (connect scripts \<sigma>))))"
proof (rule connect_cases [OF assms(1), of scripts], goal_cases)
  case (1 u1 \<sigma>1 out1)
  with run_attempt_no_open [OF assms(1) assms(2)] show ?case by simp
next
  case (2 e1 \<sigma>1 out1)
  with run_attempt_no_open [OF assms(1) assms(2)] show ?case by (simp add: fst_snd_give_up)
next
  case (3 e1 \<sigma>1 out1 u2 \<sigma>2 out2)
  from run_attempt_no_open [OF assms(1) assms(2)] 3(1) have "\<not> isConnected (fst \<sigma>1)" by simp
  from run_attempt_no_open [OF this assms(3)] 3 show ?case by simp
next
  case (4 e1 \<sigma>1 out1 e2 \<sigma>2 out2)
  from run_attempt_no_open [OF assms(1) assms(2)] 4(1) have "\<not> isConnected (fst \<sigma>1)" by simp
  from run_attempt_no_open [OF this assms(3)] 4 show ?case by (simp add: fst_snd_give_up)
qed

text \<open>
  C3. The code breaks the claim. \<open>isConnected\<close> is set to true by the listener for open
  events only, and \<^verbatim>\<open>connect\<close> resolves only when the connection of the attempt emits
  an open event (the lemmas above). But an attempt that is rejected leaves its connection
  unfinished and its listeners registered. On the script below the first connection emits
  an error event with the message \<^verbatim>\<open>Network error\<close>; the promise is rejected and the
  catch block waits; during the wait the same connection emits an open event and its
  listener sets \<open>isConnected\<close>; the second attempt meets silence and times out. So
  \<^verbatim>\<open>connect\<close> throws, the connection failed, and the session is open all the same.
\<close>

theorem connect_rejects_with_session_open:
  "\<not> isConnected registered_service
   \<and> fst (connect late_open_script (registered_service, initial_state))
       = Inl ''Failed to connect to transcription service: Connection timeout''
   \<and> isConnected (fst (fst (snd (connect late_open_script (registered_service, initial_state)))))
   \<and> snd (snd (connect late_open_script (registered_service, initial_state)))
       = [LiveCalled, Waited 500, LiveCalled]"
proof -
  have nc: "\<not> isConnected (fst (registered_service, initial_state))"
    by (simp add: registered_service_def onError_def onTranscript_def)
  have t1: "is_transient (JsError (Some ''Network error'') ''Error: Network error'')"
    by (simp add: is_transient_def)
  have t2: "\<not> is_transient timeout_error"
    by (simp add: is_transient_def timeout_error_def)
  obtain \<sigma>1 where first:
    "run_attempt (next_attempt late_open_script) (registered_service, initial_state)
       = (Inl (JsError (Some ''Network error'') ''Error: Network error''), \<sigma>1, [LiveCalled])"
    and open1: "isConnected (fst \<sigma>1)"
    by (simp add: run_attempt_def next_attempt_def late_open_script_def t1 run_events_def)
  obtain \<sigma>2 where second:
    "run_attempt (next_attempt (tl late_open_script)) \<sigma>1 = (Inl timeout_error, \<sigma>2, [LiveCalled])"
    and open2: "isConnected (fst \<sigma>2)"
    using open1
    by (simp add: run_attempt_def next_attempt_def late_open_script_def t2)
  have "connect late_open_script (registered_service, initial_state) =
      (fst (give_up (Some timeout_error) \<sigma>2), snd (give_up (Some timeout_error) \<sigma>2),
       [LiveCalled, Waited 500, LiveCalled])"
    by (simp add: connect_unrolled [OF nc] first second t1 t2)
  then show ?thesis
    using nc open2
    by (simp add: give_up_eq timeout_error_def or_else_def fst_dispatch_error)
qed

section \<open>Bounded retry\<close>

lemma live_calls_append: "live_calls (a @ b) = live_calls a + live_calls b"
  by (simp add: live_calls_def)

lemma live_calls_single:
  "live_calls [LiveCalled] = 1" "live_calls [Waited n] = 0" "live_calls [] = 0"
  by (simp_all add: live_calls_def)

lemma run_attempt_out_eq: "run_attempt a \<sigma> = (r, \<sigma>', out) \<Longrightarrow> out = [LiveCalled]"
  using run_attempt_out [of a \<sigma>] by simp

lemma connect_live_calls:
  assumes "\<not> isConnected (fst \<sigma>)"
  shows "live_calls (snd (snd (connect scripts \<sigma>))) =
     (case fst (run_attempt (next_attempt scripts) \<sigma>) of
        Inr u \<Rightarrow> 1
      | Inl e1 \<Rightarrow> if is_transient e1 then 2 else 1)"
proof (rule connect_cases [OF assms, of scripts], goal_cases)
  case (1 u1 \<sigma>1 out1)
  with run_attempt_out_eq [OF 1(1)] show ?case by (simp add: live_calls_single)
next
  case (2 e1 \<sigma>1 out1)
  with run_attempt_out_eq [OF 2(1)] show ?case by (simp add: live_calls_single)
next
  case (3 e1 \<sigma>1 out1 u2 \<sigma>2 out2)
  with run_attempt_out_eq [OF 3(1)] run_attempt_out_eq [OF 3(3)] show ?case
    by (simp add: live_calls_def)
next
  case (4 e1 \<sigma>1 out1 e2 \<sigma>2 out2)
  with run_attempt_out_eq [OF 4(1)] run_attempt_out_eq [OF 4(3)] show ?case
    by (simp add: live_calls_def)
qed

lemma connect_live_calls_le: "live_calls (snd (snd (connect scripts \<sigma>))) \<le> 2"
proof (cases "isConnected (fst \<sigma>)")
  case True
  then show ?thesis by (simp add: connect_def live_calls_def)
next
  case False
  then show ?thesis by (simp add: connect_live_calls split: sum.splits)
qed

lemma give_up_message:
  assumes "err_message e = Some m" "m \<noteq> []" "onErrorCallback (fst \<sigma>) = Some cb"
  shows "give_up (Some e) \<sigma> =
           (Inl (''Failed to connect to transcription service: '' @ m), (fst \<sigma>, cb m (snd \<sigma>)))"
    and "str_includes (''Failed to connect to transcription service: '' @ m) m"
proof -
  show "give_up (Some e) \<sigma> =
           (Inl (''Failed to connect to transcription service: '' @ m), (fst \<sigma>, cb m (snd \<sigma>)))"
    using assms by (simp add: give_up_eq or_else_def dispatch_error_def)
  show "str_includes (''Failed to connect to transcription service: '' @ m) m"
    using str_includes_append [of "''Failed to connect to transcription service: ''" m "[]"]
    by simp
qed

text \<open>
  C5. \<^verbatim>\<open>connect\<close> on a session that is not connected is this: one attempt; when it
  fails with a transient error (a message that contains 1006 or Network error), a wait of
  500 ms and a second attempt; no third attempt. So the connection is created twice when
  the first attempt failed with a transient error and once otherwise, and never more than
  twice. When the last attempt has failed, the registered error callback is invoked and
  the error thrown is the descriptive text followed by the message of the last error.
\<close>

theorem connect_bounded_retry:
  assumes "\<not> isConnected (fst \<sigma>)"
  shows "connect scripts \<sigma> =
     (case run_attempt (next_attempt scripts) \<sigma> of
        (Inr u, \<sigma>1, out1) \<Rightarrow> (Inr (), \<sigma>1, out1)
      | (Inl e1, \<sigma>1, out1) \<Rightarrow>
          if is_transient e1
          then (case run_attempt (next_attempt (tl scripts)) \<sigma>1 of
                  (Inr u, \<sigma>2, out2) \<Rightarrow> (Inr (), \<sigma>2, out1 @ [Waited 500] @ out2)
                | (Inl e2, \<sigma>2, out2) \<Rightarrow>
                    (fst (give_up (Some e2) \<sigma>2), snd (give_up (Some e2) \<sigma>2),
                     out1 @ [Waited 500] @ out2 @ (if is_transient e2 then [Waited 500] else [])))
          else (fst (give_up (Some e1) \<sigma>1), snd (give_up (Some e1) \<sigma>1), out1))
    \<and> live_calls (snd (snd (connect scripts \<sigma>))) =
        (case fst (run_attempt (next_attempt scripts) \<sigma>) of
           Inr u \<Rightarrow> 1
         | Inl e1 \<Rightarrow> if is_transient e1 then 2 else 1)
    \<and> live_calls (snd (snd (connect scripts \<tau>))) \<le> 2
    \<and> give_up (Some e) \<tau> =
        (Inl (''Failed to connect to transcription service: '' @
              or_else (err_message e) (err_text e)),
         dispatch_error (or_else (err_message e) ''Failed to connect to Deepgram'') \<tau>)
    \<and> (err_message e = Some m \<and> m \<noteq> [] \<and> onErrorCallback (fst \<tau>) = Some cb \<longrightarrow>
         give_up (Some e) \<tau> =
           (Inl (''Failed to connect to transcription service: '' @ m), (fst \<tau>, cb m (snd \<tau>)))
         \<and> str_includes (''Failed to connect to transcription service: '' @ m) m)"
  using connect_unrolled [OF assms, of scripts] connect_live_calls [OF assms, of scripts]
    connect_live_calls_le [of scripts \<tau>] give_up_eq [of e \<tau>] give_up_message [of e m \<tau> cb]
  by blast

theorem connect_bounded_retry_witness:
  "\<not> isConnected (fst (registered_service, initial_state))
   \<and> live_calls (snd (snd (connect
        [Events [Error (JsError (Some ''Network error'') ''Error'')],
         Events [Error (JsError (Some ''closed with 1006'') ''Error'')],
         Events [Open]] (registered_service, initial_state)))) = 2
   \<and> err_message (JsError (Some ''closed with 1006'') ''Error'') = Some ''closed with 1006''
   \<and> onErrorCallback (fst (registered_service, initial_state)) = Some error_callback
   \<and> give_up (Some (JsError (Some ''closed with 1006'') ''Error''))
        (registered_service, initial_state) =
       (Inl ''Failed to connect to transcription service: closed with 1006'',
        (registered_service, error_callback ''closed with 1006'' initial_state))"
proof -
  have nc: "\<not> isConnected (fst (registered_service, initial_state))"
    by (simp add: registered_service_def onError_def onTranscript_def)
  have cb: "onErrorCallback (fst (registered_service, initial_state)) = Some error_callback"
    by (simp add: registered_service_def onError_def)
  have tr: "is_transient (JsError (Some ''Network error'') ''Error'')"
    by (simp add: is_transient_def)
  note th = connect_bounded_retry [OF nc,
        where scripts = "[Events [Error (JsError (Some ''Network error'') ''Error'')],
                          Events [Error (JsError (Some ''closed with 1006'') ''Error'')],
                          Events [Open]]"
          and \<tau> = "(registered_service, initial_state)"
          and e = "JsError (Some ''closed with 1006'') ''Error''"
          and m = "''closed with 1006''" and cb = error_callback]
  have first: "fst (run_attempt (next_attempt
        [Events [Error (JsError (Some ''Network error'') ''Error'')],
         Events [Error (JsError (Some ''closed with 1006'') ''Error'')],
         Events [Open]]) (registered_service, initial_state))
      = Inl (JsError (Some ''Network error'') ''Error'')"
    by (simp add: run_attempt_def next_attempt_def split: prod.splits)
  have calls: "live_calls (snd (snd (connect
        [Events [Error (JsError (Some ''Network error'') ''Error'')],
         Events [Error (JsError (Some ''closed with 1006'') ''Error'')],
         Events [Open]] (registered_service, initial_state)))) = 2"
    using th [THEN conjunct2, THEN conjunct1] tr by (simp only: first sum.case if_True)
  have thrown: "give_up (Some (JsError (Some ''closed with 1006'') ''Error''))
        (registered_service, initial_state) =
       (Inl (''Failed to connect to transcription service: '' @ ''closed with 1006''),
        (fst (registered_service, initial_state),
         error_callback ''closed with 1006'' (snd (registered_service, initial_state))))"
    using th [THEN conjunct2, THEN conjunct2, THEN conjunct2, THEN conjunct2] cb by simp
  show ?thesis
    using nc cb calls thrown by simp
qed

section \<open>Starting a recording\<close>

lemma validation_failed_hook_eq:
  "\<exists>msg. validation_failed_hook =
     \<lparr>state = initial_state\<lparr>error := Some msg\<rparr>,
      audioServiceRef = Some \<lparr>mediaStream = True, audio_isRecording = False\<rparr>,
      transcriptionServiceRef = Some registered_service\<rparr>"
proof -
  have "validateApiKey (Events []) (Inl (JsError (Some ''unreachable'') ''Error: unreachable''))
      \<noteq> Inr ()"
    by (simp add: validateApiKey_resolves probeConnection_def probeDeepgramNative_def)
  then obtain msg where
    "validateApiKey (Events []) (Inl (JsError (Some ''unreachable'') ''Error: unreachable''))
      = Inl msg"
    by (cases "validateApiKey (Events []) (Inl (JsError (Some ''unreachable'') ''Error: unreachable''))")
      simp_all
  then have "validation_failed_hook =
     \<lparr>state = initial_state\<lparr>error := Some msg\<rparr>,
      audioServiceRef = Some \<lparr>mediaStream = True, audio_isRecording = False\<rparr>,
      transcriptionServiceRef = Some registered_service\<rparr>"
    by (simp add: validation_failed_hook_def initialize_def init_audio_def
        init_transcription_def init_failed_def requestMicrophoneAccess_def
        new_AudioCaptureService_def new_TranscriptionService_def initial_hook_def
        initial_state_def registered_service_def)
  then show ?thesis by blast
qed

lemma validation_failed_hook_refs:
  "audioServiceRef validation_failed_hook = Some \<lparr>mediaStream = True, audio_isRecording = False\<rparr>"
  "transcriptionServiceRef validation_failed_hook = Some registered_service"
  "\<not> isReady (state validation_failed_hook)"
proof -
  from validation_failed_hook_eq obtain msg where eq:
    "validation_failed_hook =
     \<lparr>state = initial_state\<lparr>error := Some msg\<rparr>,
      audioServiceRef = Some \<lparr>mediaStream = True, audio_isRecording = False\<rparr>,
      transcriptionServiceRef = Some registered_service\<rparr>"
    by blast
  show "audioServiceRef validation_failed_hook = Some \<lparr>mediaStream = True, audio_isRecording = False\<rparr>"
    by (simp add: eq)
  show "transcriptionServiceRef validation_failed_hook = Some registered_service"
    by (simp add: eq)
  show "\<not> isReady (state validation_failed_hook)"
    by (simp add: eq initial_state_def)
qed

lemma registered_service_fields:
  "\<not> isConnected registered_service"
  "onTranscriptCallback registered_service = Some transcript_callback"
  "onErrorCallback registered_service = Some error_callback"
  by (simp_all add: registered_service_def onError_def onTranscript_def)

lemma connect_single_open:
  "\<not> isConnected s \<Longrightarrow>
   connect [Events [Open]] (s, st) = (Inr (), (s\<lparr>connection := Some (), isConnected := True\<rparr>, st), [LiveCalled])"
  by (simp add: connect_unrolled run_attempt_def next_attempt_def)

text \<open>
  C7, the claim as it stands fails. After an \<^verbatim>\<open>initialize\<close> whose validation of the
  key failed, \<open>isReady\<close> is false and both services exist; \<^verbatim>\<open>startRecording\<close> then
  creates the connection, the session is connected and capture is recording.
\<close>

theorem startRecording_not_ready_counterexample:
  "\<not> isReady (state validation_failed_hook)
   \<and> snd (startRecording [Events [Open]] validation_failed_hook) = [LiveCalled]
   \<and> map_option isConnected
        (transcriptionServiceRef (fst (startRecording [Events [Open]] validation_failed_hook)))
       = Some True
   \<and> map_option audio_isRecording
        (audioServiceRef (fst (startRecording [Events [Open]] validation_failed_hook)))
       = Some True
   \<and> isRecording (state (fst (startRecording [Events [Open]] validation_failed_hook)))"
proof -
  from validation_failed_hook_eq obtain msg where eq:
    "validation_failed_hook =
     \<lparr>state = initial_state\<lparr>error := Some msg\<rparr>,
      audioServiceRef = Some \<lparr>mediaStream = True, audio_isRecording = False\<rparr>,
      transcriptionServiceRef = Some registered_service\<rparr>"
    by blast
  show ?thesis
    by (simp add: eq startRecording_def connect_single_open [OF registered_service_fields(1)]
        audio_startRecording_def initial_state_def)
qed

lemma startRecording_no_services:
  "audioServiceRef h = None \<or> transcriptionServiceRef h = None \<Longrightarrow>
   startRecording scripts h =
     (h\<lparr>state := (state h)\<lparr>error := Some ''Services not initialized''\<rparr>\<rparr>, [])"
  by (auto simp: startRecording_def split: option.splits)

lemma startRecording_out:
  "audioServiceRef h = Some a \<Longrightarrow> transcriptionServiceRef h = Some t \<Longrightarrow>
   snd (startRecording scripts h) = snd (snd (connect scripts (t, startRecording_reset (state h))))"
  by (simp add: startRecording_def split: prod.splits sum.splits)

lemma startRecording_captures:
  "audioServiceRef h = Some a \<Longrightarrow> transcriptionServiceRef h = Some t \<Longrightarrow> mediaStream a \<Longrightarrow>
   fst (connect scripts (t, startRecording_reset (state h))) = Inr u \<Longrightarrow>
   map_option audio_isRecording (audioServiceRef (fst (startRecording scripts h))) = Some True
   \<and> isRecording (state (fst (startRecording scripts h)))"
  by (auto simp: startRecording_def audio_startRecording_def split: prod.splits sum.splits)

text \<open>
  C7, amended. What \<^verbatim>\<open>startRecording\<close> requires is that both services have been
  constructed; it does not look at \<open>isReady\<close>. When a service is missing it sets the error
  \<^verbatim>\<open>Services not initialized\<close> and does nothing else: no connection is created and
  capture is not started. When both are there it goes on to \<^verbatim>\<open>connect\<close>, which creates
  a connection if the session is not connected yet, and when \<^verbatim>\<open>connect\<close> resolves and
  the media stream is there, capture is recording.
\<close>

theorem startRecording_requires_services:
  "(audioServiceRef h = None \<or> transcriptionServiceRef h = None \<longrightarrow>
      startRecording scripts h =
        (h\<lparr>state := (state h)\<lparr>error := Some ''Services not initialized''\<rparr>\<rparr>, []))
   \<and> (audioServiceRef h = Some a \<and> transcriptionServiceRef h = Some t \<longrightarrow>
        snd (startRecording scripts h) =
          snd (snd (connect scripts (t, startRecording_reset (state h))))
        \<and> (\<not> isConnected t \<longrightarrow> 1 \<le> live_calls (snd (startRecording scripts h)))
        \<and> (mediaStream a \<and> fst (connect scripts (t, startRecording_reset (state h))) = Inr u \<longrightarrow>
             map_option audio_isRecording (audioServiceRef (fst (startRecording scripts h)))
               = Some True
             \<and> isRecording (state (fst (startRecording scripts h)))))"
proof -
  have "1 \<le> live_calls (snd (snd (connect scripts (t, startRecording_reset (state h)))))"
    if "\<not> isConnected t"
    using that connect_live_calls [of "(t, startRecording_reset (state h))" scripts]
    by (simp split: sum.splits)
  then show ?thesis
    using startRecording_no_services [of h scripts] startRecording_out [of h a t scripts]
      startRecording_captures [of h a t scripts u]
    by auto
qed

theorem startRecording_requires_services_witness:
  "audioServiceRef initial_hook = None
   \<and> startRecording [Events [Open]] initial_hook =
       (initial_hook\<lparr>state := (state initial_hook)\<lparr>error := Some ''Services not initialized''\<rparr>\<rparr>, [])
   \<and> audioServiceRef validation_failed_hook = Some \<lparr>mediaStream = True, audio_isRecording = False\<rparr>
   \<and> transcriptionServiceRef validation_failed_hook = Some registered_service
   \<and> \<not> isConnected registered_service
   \<and> mediaStream \<lparr>mediaStream = True, audio_isRecording = False\<rparr>
   \<and> fst (connect [Events [Open]]
        (registered_service, startRecording_reset (state validation_failed_hook))) = Inr ()
   \<and> 1 \<le> live_calls (snd (startRecording [Events [Open]] validation_failed_hook))
   \<and> isRecording (state (fst (startRecording [Events [Open]] validation_failed_hook)))"
proof -
  have a: "audioServiceRef initial_hook = None" by (simp add: initial_hook_def)
  note b = validation_failed_hook_refs(1)
  note c = validation_failed_hook_refs(2)
  have d: "fst (connect [Events [Open]]
        (registered_service, startRecording_reset (state validation_failed_hook))) = Inr ()"
    by (simp add: connect_single_open [OF registered_service_fields(1)])
  note none = startRecording_requires_services [of initial_hook "[Events [Open]]"
        "\<lparr>mediaStream = True, audio_isRecording = False\<rparr>" registered_service "()"]
  note both = startRecording_requires_services [of validation_failed_hook "[Events [Open]]"
        "\<lparr>mediaStream = True, audio_isRecording = False\<rparr>" registered_service "()"]
  have e: "startRecording [Events [Open]] initial_hook =
       (initial_hook\<lparr>state := (state initial_hook)\<lparr>error := Some ''Services not initialized''\<rparr>\<rparr>, [])"
    using none a by blast
  have f: "1 \<le> live_calls (snd (startRecording [Events [Open]] validation_failed_hook))"
    using both b c registered_service_fields(1) by blast
  have g: "isRecording (state (fst (startRecording [Events [Open]] validation_failed_hook)))"
    using both b c d by simp
  show ?thesis
    using a b c d e f g registered_service_fields(1) by simp
qed

section \<open>A new recording starts from an empty transcript\<close>

lemma startRecording_reset_forgets:
  "startRecording_reset (st\<lparr>transcript := tr, interimTranscript := it\<rparr>) = startRecording_reset st"
  by (simp add: startRecording_reset_def)

lemma startRecording_forgets:
  assumes "audioServiceRef h = Some a" "transcriptionServiceRef h = Some t"
  shows "startRecording scripts (h\<lparr>state := (state h)\<lparr>transcript := tr, interimTranscript := it\<rparr>\<rparr>)
           = startRecording scripts h"
  using assms
  by (simp add: startRecording_def startRecording_reset_forgets split: prod.splits sum.splits)

lemma startRecording_after_clear:
  assumes "audioServiceRef h = Some a" "transcriptionServiceRef h = Some t"
  shows "startRecording scripts (clearTranscript h) = startRecording scripts h"
  using assms
  by (simp add: startRecording_def clearTranscript_def startRecording_reset_def
      split: prod.splits sum.splits)

lemma startRecording_silent:
  assumes "audioServiceRef h = Some a" "transcriptionServiceRef h = Some t"
  shows "transcript (state (fst (startRecording [Events [Open]] h))) = []
       \<and> interimTranscript (state (fst (startRecording [Events [Open]] h))) = []"
proof (cases "isConnected t")
  case True
  with assms show ?thesis
    by (simp add: startRecording_def connect_def startRecording_reset_def
        startRecording_failed_def split: sum.splits)
next
  case False
  with assms show ?thesis
    by (simp add: startRecording_def connect_single_open startRecording_reset_def
        startRecording_failed_def split: sum.splits)
qed

text \<open>
  C10. A call of \<^verbatim>\<open>startRecording\<close> that gets past the check of the services (the only
  calls that connect) sets \<open>transcript\<close> and \<open>interimTranscript\<close> to the empty string
  before it connects. So what the call gives does not depend on the transcript and the
  interim transcript that were there: it is the same as after \<^verbatim>\<open>clearTranscript\<close>, and a
  recording that opens and receives no result has an empty transcript, whatever an earlier
  session had left.
\<close>

theorem startRecording_discards_previous_transcript:
  assumes "audioServiceRef h = Some a" "transcriptionServiceRef h = Some t"
  shows "transcript (startRecording_reset (state h)) = []
    \<and> interimTranscript (startRecording_reset (state h)) = []
    \<and> snd (startRecording scripts h) =
        snd (snd (connect scripts (t, startRecording_reset (state h))))
    \<and> startRecording scripts (h\<lparr>state := (state h)\<lparr>transcript := tr, interimTranscript := it\<rparr>\<rparr>)
        = startRecording scripts h
    \<and> startRecording scripts (clearTranscript h) = startRecording scripts h
    \<and> transcript (state (fst (startRecording [Events [Open]] h))) = []
    \<and> interimTranscript (state (fst (startRecording [Events [Open]] h))) = []"
  using startRecording_forgets [OF assms, where scripts = scripts and tr = tr and it = it]
    startRecording_after_clear [OF assms, of scripts]
    startRecording_silent [OF assms] startRecording_out [OF assms, of scripts]
  by (simp add: startRecording_reset_def)

theorem startRecording_discards_previous_transcript_witness:
  "audioServiceRef heard_hook = Some \<lparr>mediaStream = True, audio_isRecording = False\<rparr>
   \<and> transcriptionServiceRef heard_hook = Some registered_service
   \<and> transcript (state heard_hook) = '' hello''
   \<and> transcript (state (fst (startRecording [Events [Open]] heard_hook))) = []
   \<and> interimTranscript (state (fst (startRecording [Events [Open]] heard_hook))) = []"
proof -
  have r: "ready_hook =
     \<lparr>state = initial_state\<lparr>isReady := True\<rparr>,
      audioServiceRef = Some \<lparr>mediaStream = True, audio_isRecording = False\<rparr>,
      transcriptionServiceRef = Some registered_service\<rparr>"
    by (simp add: ready_hook_def initialize_def init_audio_def init_transcription_def
        requestMicrophoneAccess_def new_AudioCaptureService_def new_TranscriptionService_def
        validateApiKey_def probeConnection_def initial_hook_def initial_state_def
        registered_service_def)
  have a: "audioServiceRef heard_hook = Some \<lparr>mediaStream = True, audio_isRecording = False\<rparr>"
    by (simp add: heard_hook_def hook_event_def r split: prod.splits)
  have t: "transcriptionServiceRef heard_hook = Some registered_service"
    by (simp add: heard_hook_def hook_event_def r handle_transcript_def
        registered_service_fields split: prod.splits)
  have h: "transcript (state heard_hook) = '' hello''"
    by (simp add: heard_hook_def hook_event_def r handle_transcript_def
        registered_service_fields transcript_callback_def initial_state_def split: prod.splits)
  show ?thesis
    using a t h startRecording_discards_previous_transcript [OF a t, of "[Events [Open]]" "[]" "[]"]
    by simp
qed

end
